theory Spec2Isabelle
  imports Main "HOL-Library.Sublist"
begin

section \<open>Go library functions that connection.go calls\<close>

text \<open>
  Strings are byte strings, as Go's are. The functions below follow the documentation of
  the Go packages \<^verbatim>\<open>strings\<close>, \<^verbatim>\<open>strconv\<close> and \<^verbatim>\<open>net/url\<close>
  for the arguments connection.go passes: every separator is the one byte \<^verbatim>\<open>=\<close>.
\<close>

text \<open>\<^verbatim>\<open>strings.Split(s, "=")\<close>: cuts at every separator; never returns an empty slice.\<close>

fun Split :: "string \<Rightarrow> char \<Rightarrow> string list" where
  "Split [] sep = [[]]"
| "Split (c # cs) sep =
     (if c = sep then [] # Split cs sep
      else (c # hd (Split cs sep)) # tl (Split cs sep))"

text \<open>\<^verbatim>\<open>strings.Join(elems, sep)\<close>.\<close>

fun Join :: "string list \<Rightarrow> string \<Rightarrow> string" where
  "Join [] sep = []"
| "Join [x] sep = x"
| "Join (x # y # ys) sep = x @ sep @ Join (y # ys) sep"

text \<open>\<^verbatim>\<open>strings.Contains(s, substr)\<close>.\<close>

fun Contains :: "string \<Rightarrow> string \<Rightarrow> bool" where
  "Contains [] substr = (substr = [])"
| "Contains (c # cs) substr = (prefix substr (c # cs) \<or> Contains cs substr)"

text \<open>\<^verbatim>\<open>strings.Trim(s, cutset)\<close>: drops the leading and trailing bytes that are in the cutset.\<close>

definition Trim :: "string \<Rightarrow> string \<Rightarrow> string" where
  "Trim s cutset =
     rev (dropWhile (\<lambda>c. c \<in> set cutset) (rev (dropWhile (\<lambda>c. c \<in> set cutset) s)))"

text \<open>\<^verbatim>\<open>strings.ToLower\<close> on ASCII letters (the four verbs are ASCII).\<close>

definition lower_byte :: "char \<Rightarrow> char" where
  "lower_byte c =
     (case map_of (zip ''ABCDEFGHIJKLMNOPQRSTUVWXYZ'' ''abcdefghijklmnopqrstuvwxyz'') c of
        Some l \<Rightarrow> l
      | None \<Rightarrow> c)"

definition ToLower :: "string \<Rightarrow> string" where
  "ToLower s = map lower_byte s"

text \<open>
  \<^verbatim>\<open>strconv.ParseBool\<close>; connection.go drops its error (\<^verbatim>\<open>v, _ = strconv.ParseBool(p[1])\<close>),
  and the value that comes with an error is \<^verbatim>\<open>false\<close>.
\<close>

definition ParseBool :: "string \<Rightarrow> bool" where
  "ParseBool s = (s \<in> set [''1'', ''t'', ''T'', ''TRUE'', ''true'', ''True''])"

text \<open>
  \<^verbatim>\<open>url.QueryEscape\<close>: letters, digits and \<^verbatim>\<open>-_.~\<close> stay; a space becomes \<^verbatim>\<open>+\<close>;
  every other byte becomes \<^verbatim>\<open>%XX\<close> in upper-case hexadecimal.
\<close>

definition unreserved :: "char \<Rightarrow> bool" where
  "unreserved c =
     (c \<in> set ''abcdefghijklmnopqrstuvwxyzABCDEFGHIJKLMNOPQRSTUVWXYZ0123456789-_.~'')"

definition upperhex :: "nat \<Rightarrow> char" where
  "upperhex n = ''0123456789ABCDEF'' ! (n mod 16)"

definition escape_byte :: "char \<Rightarrow> string" where
  "escape_byte c =
     (if unreserved c then [c]
      else if c = CHR '' '' then ''+''
      else [CHR ''%'', upperhex (of_char c div 16), upperhex (of_char c)])"

definition QueryEscape :: "string \<Rightarrow> string" where
  "QueryEscape s = concat (map escape_byte s)"

section \<open>Errors, panics and results\<close>

text \<open>
  \<^verbatim>\<open>Retry\<close> is the package variable \<^verbatim>\<open>Retry = fmt.Errorf("Retry")\<close>; the code compares
  errors with it by identity (\<^verbatim>\<open>err == Retry\<close>), so it is a constructor of its own. The
  other constructors are the errors that connection.go builds with \<^verbatim>\<open>fmt.Errorf\<close>, and
  \<open>LibError\<close> is an error handed up from a library call.
  \<open>ArgNotFound\<close> carries no key: the message names the first missing key that the
  iteration over a Go map meets, and that order is not fixed.
\<close>

datatype error =
    Retry
  | StatusError string
  | MessageError string
  | NoApiToken string
  | ArgNotFound
  | CouldntParseParams
  | LibError string

text \<open>
  What stops a call other than a return: a run-time panic, the run-time's fatal error
  for unlocking a mutex that is not locked, and a \<^verbatim>\<open>Lock\<close> that can never be granted
  (the model is one goroutine, so nobody else will unlock). \<open>OutOfFuel\<close> is no event of
  the program: it says that the bound on nested calls, which the model of
  \<^verbatim>\<open>doRequest\<close> carries, was reached.
\<close>

datatype abort =
    IndexOutOfRange
  | TypeAssertion
  | CouldntUnderstandResponse
  | DidNotUnderstandMethod string
  | NilDereference
  | UnlockOfUnlockedMutex
  | Deadlock
  | OutOfFuel

datatype 'a outcome = Return 'a | Abort abort

section \<open>Data\<close>

text \<open>
  A value of type \<^verbatim>\<open>interface{}\<close> stored in a parameter map: the encoder itself only
  makes strings and booleans; \<open>VOther\<close> is any other value a caller puts in a map.
\<close>

datatype 'v jvalue = VString string | VBool bool | VOther 'v

text \<open>
  One argument of a variadic \<^verbatim>\<open>...interface{}\<close> list, by the dynamic types that the type
  switches of connection.go tell apart: a string, a \<^verbatim>\<open>map[string]string\<close>, a
  \<^verbatim>\<open>map[string]interface{}\<close>, the nil interface, and a value of any other type.
\<close>

datatype 'v arg =
    AString string
  | AStringMap "string \<rightharpoonup> string"
  | AMap "string \<rightharpoonup> 'v jvalue"
  | ANil
  | AOther

text \<open>
  The session. \<open>Mutex\<close> is the state of the \<^verbatim>\<open>*sync.Mutex\<close> (True: locked); \<open>QParams\<close>
  is a slice header: \<open>None\<close> is the nil slice, \<open>Some a\<close> the slice whose backing array
  lives at address \<open>a\<close> of the store (see \<open>world\<close>). \<open>Headers\<close> is a non-nil map, and
  the \<^verbatim>\<open>Client\<close> is the transport of the world.
\<close>

record APIConnection =
  Mutex :: bool
  Method :: string
  Endpoint :: string
  Headers :: "string \<rightharpoonup> string"
  QParams :: "nat option"
  Hostname :: string
  APIVersion :: string
  Port :: string
  Username :: string
  Password :: string
  Secure :: bool
  APIToken :: string
  Tenant :: string

record ReturnLogin =
  Key :: string
  Version :: string

record ErrResponse21 =
  Name :: string
  Code :: int
  HTTP :: int
  Message :: string
  Debug :: string
  Ts :: string
  APIReqId :: int
  StorageNodeUUID :: string
  StorageNodeHostname :: string
  Schema :: string
  Errors :: "string list"

text \<open>
  \<^verbatim>\<open>resp.Body\<close> is an \<^verbatim>\<open>io.ReadCloser\<close>, an object with state. The model keeps what each
  successive \<^verbatim>\<open>ioutil.ReadAll\<close> on it returns; once the list is used up the reader is at
  its end and \<^verbatim>\<open>ReadAll\<close> returns no bytes and no error. The body of a response that
  \<^verbatim>\<open>net/http\<close> read from the network yields its bytes once: \<open>wire_body\<close>.
\<close>

datatype read_result = ReadOk string | ReadFail error

type_synonym body = "read_result list"

fun ReadAll :: "body \<Rightarrow> read_result \<times> body" where
  "ReadAll [] = (ReadOk [], [])"
| "ReadAll (x # xs) = (x, xs)"

definition wire_body :: "string \<Rightarrow> body" where
  "wire_body bytes = [ReadOk bytes]"

record response =
  StatusCode :: int
  Status :: string
  Body :: body

record request =
  reqMethod :: string
  reqURL :: string
  reqHeader :: "string \<rightharpoonup> string"
  reqBody :: "string option"

text \<open>
  The library calls whose result the model does not compute are parameters:
  \<^item> \<open>template_Parse\<close> is \<^verbatim>\<open>template.New("format").Parse\<close>; a parsed template is the
    function that \<^verbatim>\<open>Execute\<close> runs on a \<^verbatim>\<open>map[string]string\<close>;
  \<^item> the two \<^verbatim>\<open>json.Unmarshal\<close> calls, by the type they decode into;
  \<^item> \<^verbatim>\<open>json.Marshal\<close> of a parameter map;
  \<^item> \<^verbatim>\<open>http.NewRequest\<close>, by whether it accepts the method and the URL.
\<close>

record 'v env =
  template_Parse :: "string \<Rightarrow> error + ((string \<rightharpoonup> string) \<Rightarrow> error + string)"
  Unmarshal_ErrResponse21 :: "string \<Rightarrow> error + ErrResponse21"
  Unmarshal_ReturnLogin :: "string \<Rightarrow> error + ReturnLogin"
  Marshal :: "(string \<rightharpoonup> 'v jvalue) \<Rightarrow> error + string"
  NewRequest :: "string \<Rightarrow> string \<Rightarrow> error option"

section \<open>The parameter encoder\<close>

text \<open>
  The loop of \<^verbatim>\<open>parseParams\<close> (lines 452-461): \<^verbatim>\<open>param.(string)\<close> panics on a value that
  is not a string, and \<^verbatim>\<open>p[1]\<close> panics when the split has one element.
\<close>

fun parseParams_loop ::
  "'v arg list \<Rightarrow> (string \<rightharpoonup> 'v jvalue) \<Rightarrow> (string \<rightharpoonup> 'v jvalue) outcome" where
  "parseParams_loop [] result = Return result"
| "parseParams_loop (param # params) result =
     (case param of
        AString s \<Rightarrow>
          (let p = Split s CHR ''='' in
           if length p < 2 then Abort IndexOutOfRange
           else
             let v = (if p ! 1 = ''true'' \<or> p ! 1 = ''false''
                      then VBool (ParseBool (p ! 1)) else VString (p ! 1))
             in parseParams_loop params (result(p ! 0 \<mapsto> v)))
      | _ \<Rightarrow> Abort TypeAssertion)"

text \<open>
  \<^verbatim>\<open>parseParams\<close>. The type switch tries \<^verbatim>\<open>map[string]interface{}\<close> first, then
  \<^verbatim>\<open>interface{}\<close>, which every value but the nil interface matches; \<^verbatim>\<open>default\<close> is left
  with the nil interface.
\<close>

definition parseParams ::
  "'v arg list \<Rightarrow> ((string \<rightharpoonup> 'v jvalue) \<times> error option) outcome" where
  "parseParams params =
     (if length params = 0 then Return (Map.empty, None)
      else
        (case hd params of
           AMap r \<Rightarrow> Return (r, None)
         | ANil \<Rightarrow> Return (Map.empty, Some CouldntParseParams)
         | _ \<Rightarrow>
             (case parseParams_loop params Map.empty of
                Return result \<Rightarrow> Return (result, None)
              | Abort a \<Rightarrow> Abort a)))"

section \<open>Headers\<close>

text \<open>\<^verbatim>\<open>UpdateHeaders\<close> (lines 157-163): \<^verbatim>\<open>h[1]\<close> panics when the split has one element.\<close>

fun UpdateHeaders ::
  "string list \<Rightarrow> APIConnection \<Rightarrow> error option outcome \<times> APIConnection" where
  "UpdateHeaders [] r = (Return None, r)"
| "UpdateHeaders (h # headers) r =
     (let x = Split h CHR ''='' in
      if length x < 2 then (Abort IndexOutOfRange, r)
      else UpdateHeaders headers (r\<lparr>Headers := (Headers r)(x ! 0 \<mapsto> x ! 1)\<rparr>))"

section \<open>The response classifier\<close>

definition permDeniedError :: string where
  "permDeniedError = ''PermissionDeniedError''"

definition httpErrors :: "int \<rightharpoonup> bool" where
  "httpErrors = [400 \<mapsto> True, 401 \<mapsto> True, 422 \<mapsto> True, 500 \<mapsto> True]"

text \<open>
  \<^verbatim>\<open>handleBadResponse\<close> (lines 417-439). It reads \<^verbatim>\<open>resp.Body\<close> itself, so what it
  decodes is what the reader still holds when it is called.
\<close>

definition handleBadResponse :: "'v env \<Rightarrow> response \<Rightarrow> error option outcome" where
  "handleBadResponse env resp =
     (let ok = (httpErrors (StatusCode resp) \<noteq> None);
          rest = (if ok then Return (Some (StatusError (Status resp))) else Return None)
      in
        if StatusCode resp = 401 then
          (case fst (ReadAll (Body resp)) of
             ReadFail err \<Rightarrow> Abort CouldntUnderstandResponse
           | ReadOk b \<Rightarrow>
               (case Unmarshal_ErrResponse21 env b of
                  Inl err \<Rightarrow> Abort CouldntUnderstandResponse
                | Inr e \<Rightarrow> if Name e = permDeniedError then Return (Some Retry) else rest))
        else rest)"

text \<open>
  The Error Response that lines 421-430 get from the body, when the body can be read
  and decoded.
\<close>

definition decoded :: "'v env \<Rightarrow> response \<Rightarrow> ErrResponse21 option" where
  "decoded env resp =
     (case fst (ReadAll (Body resp)) of
        ReadFail err \<Rightarrow> None
      | ReadOk b \<Rightarrow>
          (case Unmarshal_ErrResponse21 env b of
             Inl err \<Rightarrow> None
           | Inr e \<Rightarrow> Some e))"

section \<open>The template renderer\<close>

definition connTemplate :: string where
  "connTemplate = ''http://{{.hostname}}:{{.port}}/v{{.version}}/{{.endpoint}}''"

definition secConnTemplate :: string where
  "secConnTemplate = ''https://{{.hostname}}:{{.port}}/v{{.version}}/{{.endpoint}}''"

definition USetToken :: string where
  "USetToken = []"

text \<open>
  The loop of \<^verbatim>\<open>parseTemplate\<close> over string arguments (lines 131-137): an argument is
  kept only when its split has exactly two elements.
\<close>

fun parseTemplate_args :: "'v arg list \<Rightarrow> (string \<rightharpoonup> string) \<Rightarrow> (string \<rightharpoonup> string) outcome" where
  "parseTemplate_args [] argm = Return argm"
| "parseTemplate_args (i # args) argm =
     (case i of
        AString a \<Rightarrow>
          (let x = Split a CHR ''='' in
           parseTemplate_args args (if length x = 2 then argm(x ! 0 \<mapsto> x ! 1) else argm))
      | _ \<Rightarrow> Abort TypeAssertion)"

text \<open>
  \<^verbatim>\<open>parseTemplate\<close> (lines 121-154); \<open>Inl\<close> is the return \<^verbatim>\<open>("", err)\<close>. The template
  is parsed first, then \<^verbatim>\<open>args[0]\<close> is read.
\<close>

definition parseTemplate :: "'v env \<Rightarrow> string \<Rightarrow> 'v arg list \<Rightarrow> (error + string) outcome" where
  "parseTemplate env fstring args =
     (case template_Parse env fstring of
        Inl err \<Rightarrow> Return (Inl err)
      | Inr tpl \<Rightarrow>
          (case args of
             [] \<Rightarrow> Abort IndexOutOfRange
           | t # _ \<Rightarrow>
               (case (case t of
                        AString _ \<Rightarrow> parseTemplate_args args Map.empty
                      | AStringMap m \<Rightarrow> Return m
                      | _ \<Rightarrow> Return Map.empty) of
                  Abort a \<Rightarrow> Abort a
                | Return argm \<Rightarrow>
                    if \<exists>k \<in> dom argm. \<not> Contains fstring (''{{.'' @ k @ ''}}'')
                    then Return (Inl ArgNotFound)
                    else Return (tpl argm))))"

section \<open>The world outside the session\<close>

text \<open>
  What \<^verbatim>\<open>r.Client.Do\<close> returns: a transport error or a response. The world holds the
  reply to each exchange in turn, the requests sent so far, the result of each call of
  \<^verbatim>\<open>NewUUID\<close> (a function of this package that connection.go calls and does not define;
  only whether it fails matters here), and the store of the backing arrays of string
  slices.
\<close>

datatype reply = NoReply error | Reply response

record world =
  replies :: "nat \<Rightarrow> reply"
  sent :: "request list"
  uuid_results :: "nat \<Rightarrow> error option"
  uuid_calls :: nat
  slices :: "nat \<Rightarrow> string list"

definition Do :: "request \<Rightarrow> world \<Rightarrow> reply \<times> world" where
  "Do req w = (replies w (length (sent w)), w\<lparr>sent := sent w @ [req]\<rparr>)"

definition NewUUID :: "world \<Rightarrow> error option \<times> world" where
  "NewUUID w = (uuid_results w (uuid_calls w), w\<lparr>uuid_calls := Suc (uuid_calls w)\<rparr>)"

section \<open>Building the URL\<close>

text \<open>
  \<^verbatim>\<open>prepConn\<close> (lines 165-193). The loop of lines 185-187 writes the escaped strings into
  the backing array of \<^verbatim>\<open>r.QParams\<close>, which is the array of the slice the caller passed.
\<close>

definition prepConn ::
  "'v env \<Rightarrow> APIConnection \<Rightarrow> world \<Rightarrow> (error + string) outcome \<times> APIConnection \<times> world" where
  "prepConn env r w =
     (let fstring = (if Secure r then secConnTemplate else connTemplate);
          m = [''hostname'' \<mapsto> Hostname r, ''port'' \<mapsto> Port r,
               ''endpoint'' \<mapsto> Endpoint r, ''version'' \<mapsto> APIVersion r]
      in
        case parseTemplate env fstring [AStringMap m] of
          Abort a \<Rightarrow> (Abort a, r, w)
        | Return (Inl err) \<Rightarrow> (Return (Inl err), r, w)
        | Return (Inr conn) \<Rightarrow>
            (case (if APIToken r \<noteq> USetToken
                   then UpdateHeaders [''Auth-Token='' @ APIToken r] r
                   else (Return None, r)) of
               (Abort a, r1) \<Rightarrow> (Abort a, r1, w)
             | (Return _, r1) \<Rightarrow>
                 (let w1 = (case QParams r1 of
                              None \<Rightarrow> w
                            | Some a \<Rightarrow> w\<lparr>slices := (slices w)(a := map QueryEscape (slices w a))\<rparr>);
                      qparams = Join (case QParams r1 of None \<Rightarrow> [] | Some a \<Rightarrow> slices w1 a) ''&''
                  in (Return (Inr (if length qparams > 0 then Join [conn, qparams] ''?'' else conn)),
                      r1, w1))))"

section \<open>The request pipeline\<close>

definition verb :: "string \<Rightarrow> string option" where
  "verb m =
     (if m = ''get'' then Some ''GET''
      else if m = ''put'' then Some ''PUT''
      else if m = ''post'' then Some ''POST''
      else if m = ''delete'' then Some ''DELETE''
      else None)"

text \<open>
  One attempt: \<^verbatim>\<open>doRequest\<close> from its first line to the call of \<^verbatim>\<open>handleBadResponse\<close>
  (lines 196-284). \<open>Returned\<close> is one of the early returns, which leave the mutex
  locked; \<open>Classified\<close> carries \<^verbatim>\<open>rbody\<close> and the \<^verbatim>\<open>err\<close> of line 284.
  Line 266 reads the body before line 284 hands the response to the classifier, so the
  classifier gets the reader as line 266 left it. When \<^verbatim>\<open>http.NewRequest\<close> fails,
  \<^verbatim>\<open>req\<close> is nil and the loop of lines 228-230 runs before the check of line 231.
  Logging is left out; \<open>sensitive\<close> only changes what is logged.
\<close>

datatype attempt =
    Returned "string \<times> error option"
  | Stopped abort
  | Classified string "error option"

definition doRequest_attempt ::
  "'v env \<Rightarrow> string \<Rightarrow> string \<Rightarrow> string option \<Rightarrow> nat option \<Rightarrow> bool \<Rightarrow>
   APIConnection \<Rightarrow> world \<Rightarrow> attempt \<times> APIConnection \<times> world" where
  "doRequest_attempt env method endpoint body qparams sensitive r w =
     (if Mutex r then (Stopped Deadlock, r, w)
      else
        (let r0 = r\<lparr>Mutex := True\<rparr> in
         case verb (ToLower method) of
           None \<Rightarrow> (Stopped (DidNotUnderstandMethod method), r0, w)
         | Some m \<Rightarrow>
             (case prepConn env (r0\<lparr>Method := m, Endpoint := Trim endpoint ''/'',
                                     QParams := qparams\<rparr>) w of
                (Abort a, r1, w1) \<Rightarrow> (Stopped a, r1, w1)
              | (Return (Inl err), r1, w1) \<Rightarrow> (Returned ([], Some err), r1, w1)
              | (Return (Inr conn), r1, w1) \<Rightarrow>
                  (case NewRequest env (Method r1) conn of
                     Some err \<Rightarrow>
                       if dom (Headers r1) \<noteq> {} then (Stopped NilDereference, r1, w1)
                       else (Returned ([], Some err), r1, w1)
                   | None \<Rightarrow>
                       (let req = \<lparr>reqMethod = Method r1, reqURL = conn,
                                   reqHeader = Headers r1, reqBody = body\<rparr> in
                        case NewUUID w1 of
                          (Some err, w2) \<Rightarrow> (Returned ([], Some err), r1, w2)
                        | (None, w2) \<Rightarrow>
                            (case Do req w2 of
                               (NoReply err, w3) \<Rightarrow> (Returned ([], Some err), r1, w3)
                             | (Reply resp, w3) \<Rightarrow>
                                 (case ReadAll (Body resp) of
                                    (ReadFail err, rest) \<Rightarrow> (Returned ([], Some err), r1, w3)
                                  | (ReadOk rbody, rest) \<Rightarrow>
                                      (case handleBadResponse env (resp\<lparr>Body := rest\<rparr>) of
                                         Abort a \<Rightarrow> (Stopped a, r1, w3)
                                       | Return err \<Rightarrow> (Classified rbody err, r1, w3)))))))))"

type_synonym doRequest_fn =
  "string \<Rightarrow> string \<Rightarrow> string option \<Rightarrow> nat option \<Rightarrow> bool \<Rightarrow> bool \<Rightarrow>
   APIConnection \<Rightarrow> world \<Rightarrow> (string \<times> error option) outcome \<times> APIConnection \<times> world"

text \<open>
  \<^verbatim>\<open>Put\<close> (lines 314-324) and \<^verbatim>\<open>Login\<close> (lines 379-404), over the \<^verbatim>\<open>doRequest\<close> they
  call.
\<close>

definition Put_via ::
  "doRequest_fn \<Rightarrow> 'v env \<Rightarrow> string \<Rightarrow> bool \<Rightarrow> 'v arg list \<Rightarrow>
   APIConnection \<Rightarrow> world \<Rightarrow> (string \<times> error option) outcome \<times> APIConnection \<times> world" where
  "Put_via doReq env endpoint sensitive bodyp r w =
     (case parseParams bodyp of
        Abort a \<Rightarrow> (Abort a, r, w)
      | Return (params, Some err) \<Rightarrow> (Return ([], Some err), r, w)
      | Return (params, None) \<Rightarrow>
          (case Marshal env params of
             Inl err \<Rightarrow> (Return ([], Some err), r, w)
           | Inr body \<Rightarrow> doReq ''put'' endpoint (Some body) None sensitive False r w))"

definition Login_via ::
  "doRequest_fn \<Rightarrow> 'v env \<Rightarrow> APIConnection \<Rightarrow> world \<Rightarrow>
   error option outcome \<times> APIConnection \<times> world" where
  "Login_via doReq env r w =
     (let p1 = ''name='' @ Username r;
          p2 = ''password='' @ Password r
      in
        if APIToken r = [] then
          (case Put_via doReq env ''login'' True [AString p1, AString p2] r w of
             (Abort a, r1, w1) \<Rightarrow> (Abort a, r1, w1)
           | (Return (resp, Some err), r1, w1) \<Rightarrow>
               (case Unmarshal_ErrResponse21 env resp of
                  Inl serr \<Rightarrow> (Return (Some err), r1, w1)
                | Inr e \<Rightarrow> (Return (Some (MessageError (Message e))), r1, w1))
           | (Return (resp, None), r1, w1) \<Rightarrow>
               (case Unmarshal_ReturnLogin env resp of
                  Inl err \<Rightarrow> (Return (Some err), r1, w1)
                | Inr l \<Rightarrow>
                    if Key l = [] then (Return (Some (NoApiToken resp)), r1, w1)
                    else (Return None, r1\<lparr>APIToken := Key l\<rparr>, w1)))
        else (Return None, r, w))"

text \<open>
  \<^verbatim>\<open>doRequest\<close> (lines 195-294) with its own calls, the one of line 290 and the one
  inside \<^verbatim>\<open>Login\<close>, going to \<open>self\<close>. Line 289 drops the error of \<^verbatim>\<open>Login\<close> and line 290
  drops both results of the second \<^verbatim>\<open>doRequest\<close>; lines 292-293 then unlock and return
  \<^verbatim>\<open>rbody\<close> and \<^verbatim>\<open>err\<close> of this attempt. The slice \<open>qparams\<close> of line 290 is the one
  that \<^verbatim>\<open>prepConn\<close> has written to.
\<close>

definition doRequest_step :: "'v env \<Rightarrow> doRequest_fn \<Rightarrow> doRequest_fn" where
  "doRequest_step env self method endpoint body qparams sensitive retry r w =
     (case doRequest_attempt env method endpoint body qparams sensitive r w of
        (Stopped a, r1, w1) \<Rightarrow> (Abort a, r1, w1)
      | (Returned res, r1, w1) \<Rightarrow> (Return res, r1, w1)
      | (Classified rbody err, r1, w1) \<Rightarrow>
          (case (if err = Some Retry \<and> \<not> retry then
                   (if \<not> Mutex r1 then (Abort UnlockOfUnlockedMutex, r1, w1)
                    else
                      (case Login_via self env (r1\<lparr>Mutex := False, APIToken := USetToken\<rparr>) w1 of
                         (Abort a, r2, w2) \<Rightarrow> (Abort a, r2, w2)
                       | (Return _, r2, w2) \<Rightarrow>
                           (case self method endpoint body qparams sensitive True r2 w2 of
                              (Abort a, r3, w3) \<Rightarrow> (Abort a, r3, w3)
                            | (Return _, r3, w3) \<Rightarrow> (Return (), r3, w3))))
                 else (Return (), r1, w1)) of
             (Abort a, r4, w4) \<Rightarrow> (Abort a, r4, w4)
           | (Return _, r4, w4) \<Rightarrow>
               if \<not> Mutex r4 then (Abort UnlockOfUnlockedMutex, r4, w4)
               else (Return (rbody, err), r4\<lparr>Mutex := False\<rparr>, w4)))"

text \<open>
  The recursion of \<^verbatim>\<open>doRequest\<close> through \<^verbatim>\<open>Login\<close> and \<^verbatim>\<open>Put\<close> has no bound in the
  code: a login that is itself answered with the retry signal logs in again. The model
  bounds the depth of nesting by a number and stops with \<open>OutOfFuel\<close> beyond it.
\<close>

primrec doRequest :: "nat \<Rightarrow> 'v env \<Rightarrow> doRequest_fn" where
  "doRequest 0 env = (\<lambda>method endpoint body qparams sensitive retry r w. (Abort OutOfFuel, r, w))"
| "doRequest (Suc n) env = doRequest_step env (doRequest n env)"

text \<open>The methods of \<^verbatim>\<open>IAPIConnection\<close> (lines 296-404).\<close>

definition Get ::
  "nat \<Rightarrow> 'v env \<Rightarrow> string \<Rightarrow> nat option \<Rightarrow> APIConnection \<Rightarrow> world \<Rightarrow>
   (string \<times> error option) outcome \<times> APIConnection \<times> world" where
  "Get n env endpoint qparams r w = doRequest n env ''get'' endpoint None qparams False False r w"

definition Put ::
  "nat \<Rightarrow> 'v env \<Rightarrow> string \<Rightarrow> bool \<Rightarrow> 'v arg list \<Rightarrow> APIConnection \<Rightarrow> world \<Rightarrow>
   (string \<times> error option) outcome \<times> APIConnection \<times> world" where
  "Put n env = Put_via (doRequest n env) env"

definition Post ::
  "nat \<Rightarrow> 'v env \<Rightarrow> string \<Rightarrow> 'v arg list \<Rightarrow> APIConnection \<Rightarrow> world \<Rightarrow>
   (string \<times> error option) outcome \<times> APIConnection \<times> world" where
  "Post n env endpoint bodyp r w =
     (case parseParams bodyp of
        Abort a \<Rightarrow> (Abort a, r, w)
      | Return (params, Some err) \<Rightarrow> (Return ([], Some err), r, w)
      | Return (params, None) \<Rightarrow>
          (case Marshal env params of
             Inl err \<Rightarrow> (Return ([], Some err), r, w)
           | Inr body \<Rightarrow> doRequest n env ''post'' endpoint (Some body) None False False r w))"

definition Delete ::
  "nat \<Rightarrow> 'v env \<Rightarrow> string \<Rightarrow> 'v arg list \<Rightarrow> APIConnection \<Rightarrow> world \<Rightarrow>
   (string \<times> error option) outcome \<times> APIConnection \<times> world" where
  "Delete n env endpoint bodyp r w =
     (case parseParams bodyp of
        Abort a \<Rightarrow> (Abort a, r, w)
      | Return (params, Some err) \<Rightarrow> (Return ([], Some err), r, w)
      | Return (params, None) \<Rightarrow>
          (case Marshal env params of
             Inl err \<Rightarrow> (Return ([], Some err), r, w)
           | Inr body \<Rightarrow> doRequest n env ''delete'' endpoint (Some body) None False False r w))"

definition Login ::
  "nat \<Rightarrow> 'v env \<Rightarrow> APIConnection \<Rightarrow> world \<Rightarrow> error option outcome \<times> APIConnection \<times> world" where
  "Login n env = Login_via (doRequest n env) env"

section \<open>Templates of text and field actions\<close>

text \<open>
  The two templates of connection.go are text with actions of the form
  \<^verbatim>\<open>{{.name}}\<close>. \<^verbatim>\<open>text/template\<close> parses a template made of text and of actions
  \<^verbatim>\<open>{{.name}}\<close> or \<^verbatim>\<open>{{.name.name}}\<close> (a chain of fields). Executed on a
  \<^verbatim>\<open>map[string]string\<close> that has the first name of every action, it writes the text with
  each action \<^verbatim>\<open>{{.name}}\<close> replaced by the value of the map, and it fails at the first
  action with a longer chain, since the value of the map is a string and a string has
  no fields. \<open>parse_fields\<close> reads a template of that form (\<open>None\<close>: the template has
  another form) and \<open>render_pieces\<close> is the execution (\<open>None\<close>: a name is missing from
  the map). \<open>renders_fields\<close> says of an engine that it does this on these templates; on
  every other template, and on maps that miss a name, it is left free.
\<close>

datatype piece = Lit char | Field "string list"

datatype rendering = Output string | Fails

definition ident_char :: "char \<Rightarrow> bool" where
  "ident_char c =
     (c \<in> set ''abcdefghijklmnopqrstuvwxyzABCDEFGHIJKLMNOPQRSTUVWXYZ0123456789_'')"

definition digit_char :: "char \<Rightarrow> bool" where
  "digit_char c = (c \<in> set ''0123456789'')"

definition chain_char :: "char \<Rightarrow> bool" where
  "chain_char c = (ident_char c \<or> c = CHR ''.'')"

function parse_fields :: "string \<Rightarrow> piece list option" where
  "parse_fields [] = Some []"
| "parse_fields (c # cs) =
     (if prefix ''{{'' (c # cs) then
        (if prefix ''.'' (takeWhile chain_char (drop 2 (c # cs)))
            \<and> list_all (\<lambda>n. n \<noteq> [] \<and> \<not> digit_char (hd n))
                  (tl (Split (takeWhile chain_char (drop 2 (c # cs))) CHR ''.''))
            \<and> prefix ''}}'' (dropWhile chain_char (drop 2 (c # cs)))
         then map_option
                ((#) (Field (tl (Split (takeWhile chain_char (drop 2 (c # cs))) CHR ''.''))))
                (parse_fields (drop 2 (dropWhile chain_char (drop 2 (c # cs)))))
         else None)
      else map_option ((#) (Lit c)) (parse_fields cs))"
  by pat_completeness auto
termination
  apply (relation "measure length")
  subgoal by simp
  subgoal for c cs
    using length_dropWhile_le [of chain_char "drop 2 (c # cs)"] by simp
  subgoal by simp
  done

fun render_pieces :: "piece list \<Rightarrow> (string \<rightharpoonup> string) \<Rightarrow> rendering option" where
  "render_pieces [] m = Some (Output [])"
| "render_pieces (Lit c # ps) m =
     (case render_pieces ps m of
        None \<Rightarrow> None
      | Some Fails \<Rightarrow> Some Fails
      | Some (Output s) \<Rightarrow> Some (Output (c # s)))"
| "render_pieces (Field ns # ps) m =
     (case ns of
        [] \<Rightarrow> None
      | n # deeper \<Rightarrow>
          (case m n of
             None \<Rightarrow> None
           | Some v \<Rightarrow>
               if deeper \<noteq> [] then Some Fails
               else
                 (case render_pieces ps m of
                    None \<Rightarrow> None
                  | Some Fails \<Rightarrow> Some Fails
                  | Some (Output s) \<Rightarrow> Some (Output (v @ s)))))"

definition renders_fields :: "'v env \<Rightarrow> bool" where
  "renders_fields env =
     (\<forall>f ps. parse_fields f = Some ps \<longrightarrow>
        (\<exists>tpl. template_Parse env f = Inr tpl \<and>
           (\<forall>m s. render_pieces ps m = Some (Output s) \<longrightarrow> tpl m = Inr s) \<and>
           (\<forall>m. render_pieces ps m = Some Fails \<longrightarrow> isl (tpl m))))"

section \<open>What the specification says of the parameter encoder\<close>

text \<open>
  The specification has each string cut at its first \<^verbatim>\<open>=\<close>: the key is what stands
  before it, the value all that stands after it. \<open>encode_spec\<close> is the structure these
  words describe; \<open>coerce\<close> is the coercion of the two literals.
\<close>

definition pair_key :: "string \<Rightarrow> string" where
  "pair_key s = takeWhile (\<lambda>c. c \<noteq> CHR ''='') s"

definition after_first_eq :: "string \<Rightarrow> string" where
  "after_first_eq s = drop 1 (dropWhile (\<lambda>c. c \<noteq> CHR ''='') s)"

definition coerce :: "string \<Rightarrow> 'v jvalue" where
  "coerce v = (if v = ''true'' then VBool True else if v = ''false'' then VBool False else VString v)"


text \<open>What the code takes as the value: the text between the first and the second \<^verbatim>\<open>=\<close>.\<close>

definition pair_value :: "string \<Rightarrow> string" where
  "pair_value s = takeWhile (\<lambda>c. c \<noteq> CHR ''='') (after_first_eq s)"

text \<open>
  The mapping that arguments of the form \<^verbatim>\<open>name=value\<close> stand for (the comment of line
  120: \<^verbatim>\<open>Args have the form "name=value"\<close>): an argument with exactly one \<^verbatim>\<open>=\<close> binds
  the name to the value, a later one overriding an earlier one.
\<close>

definition named_args :: "string list \<Rightarrow> (string \<rightharpoonup> string)" where
  "named_args ss =
     foldl (\<lambda>m s. if length (filter ((=) CHR ''='') s) = 1
                   then m(pair_key s \<mapsto> after_first_eq s) else m)
       Map.empty ss"

section \<open>A session, an environment and worlds to run the model on\<close>

text \<open>
  The decoders of \<open>example_env\<close> are tables: they decode the bodies that the examples
  use as \<^verbatim>\<open>json.Unmarshal\<close> does and reject every other input, the empty input among
  them. Its template engine is the one of the section above, its \<^verbatim>\<open>json.Marshal\<close>
  writes the same bytes for every map, and its \<^verbatim>\<open>http.NewRequest\<close> accepts every URL.
\<close>

definition err_named :: "string \<Rightarrow> ErrResponse21" where
  "err_named n =
     \<lparr>Name = n, Code = 0, HTTP = 0, Message = [], Debug = [], Ts = [], APIReqId = 0,
      StorageNodeUUID = [], StorageNodeHostname = [], Schema = [], Errors = []\<rparr>"

definition denied_body :: string where
  \<open>denied_body = ''{"name":"PermissionDeniedError"}''\<close>

definition failed_body :: string where
  \<open>failed_body = ''{"name":"AuthFailedError"}''\<close>

definition login_body :: string where
  \<open>login_body = ''{"key":"tok1","version":"v2.1"}''\<close>

definition example_env :: "unit env" where
  "example_env =
     \<lparr>template_Parse =
        (\<lambda>f. case parse_fields f of
                None \<Rightarrow> Inl (LibError ''template'')
              | Some ps \<Rightarrow>
                  Inr (\<lambda>m. case render_pieces ps m of
                              None \<Rightarrow> Inl (LibError ''no value'')
                            | Some Fails \<Rightarrow> Inl (LibError ''cannot evaluate field'')
                            | Some (Output s) \<Rightarrow> Inr s)),
      Unmarshal_ErrResponse21 =
        (\<lambda>b. if b = denied_body then Inr (err_named ''PermissionDeniedError'')
              else if b = failed_body then Inr (err_named ''AuthFailedError'')
              else Inl (LibError ''json'')),
      Unmarshal_ReturnLogin =
        (\<lambda>b. if b = login_body then Inr \<lparr>Key = ''tok1'', Version = ''v2.1''\<rparr>
              else Inl (LibError ''json'')),
      Marshal = (\<lambda>m. Inr ''{}''),
      NewRequest = (\<lambda>m u. None)\<rparr>"

definition example_conn :: APIConnection where
  "example_conn =
     \<lparr>Mutex = False, Method = [], Endpoint = [],
      Headers = [''Content-Type'' \<mapsto> ''application/json'', ''tenant'' \<mapsto> ''/root''],
      QParams = None, Hostname = ''cluster'', APIVersion = ''2.1'', Port = ''7717'',
      Username = ''admin'', Password = ''secret'', Secure = True, APIToken = ''tok0'',
      Tenant = ''/root''\<rparr>"

text \<open>
  A world that gives the listed replies in turn and a transport error after them, and
  whose store holds one slice \<open>qs\<close> at address 0.
\<close>

definition example_world :: "reply list \<Rightarrow> string list \<Rightarrow> world" where
  "example_world rs qs =
     \<lparr>replies = (\<lambda>i. if i < length rs then rs ! i else NoReply (LibError ''refused'')),
      sent = [],
      uuid_results = (\<lambda>i. None),
      uuid_calls = 0,
      slices = (\<lambda>a. if a = 0 then qs else [])\<rparr>"

definition login_world :: world where
  "login_world =
     example_world [Reply \<lparr>StatusCode = 200, Status = ''200 OK'', Body = wire_body login_body\<rparr>] []"

definition logged_out :: APIConnection where
  "logged_out = example_conn\<lparr>APIToken := []\<rparr>"

text \<open>
  Three worlds for a \<^verbatim>\<open>Get\<close> with the query parameter \<^verbatim>\<open>a b\<close>. In \<open>denied_world\<close>
  the server answers 401 with the permission-denied body, read from the network. In the
  other two the body of that answer comes from a reader that yields its bytes again to
  the second \<^verbatim>\<open>ReadAll\<close> (a \<^verbatim>\<open>RoundTripper\<close> of the caller's can return such a body;
  \<^verbatim>\<open>net/http\<close> does not), and the login that follows succeeds; the third exchange fails
  in \<open>retry_world\<close> and is answered 200 in \<open>retried_world\<close>.
\<close>

definition denied_world :: world where
  "denied_world =
     example_world
       [Reply \<lparr>StatusCode = 401, Status = ''401 Unauthorized'', Body = wire_body denied_body\<rparr>]
       [''a b'']"

definition retry_world :: world where
  "retry_world =
     example_world
       [Reply \<lparr>StatusCode = 401, Status = ''401 Unauthorized'',
               Body = [ReadOk denied_body, ReadOk denied_body]\<rparr>,
        Reply \<lparr>StatusCode = 200, Status = ''200 OK'', Body = wire_body login_body\<rparr>]
       [''a b'']"

definition retried_world :: world where
  "retried_world =
     example_world
       [Reply \<lparr>StatusCode = 401, Status = ''401 Unauthorized'',
               Body = [ReadOk denied_body, ReadOk denied_body]\<rparr>,
        Reply \<lparr>StatusCode = 200, Status = ''200 OK'', Body = wire_body login_body\<rparr>,
        Reply \<lparr>StatusCode = 200, Status = ''200 OK'', Body = wire_body ''{}''\<rparr>]
       [''a b'']"

text \<open>
  A world in which every exchange is answered 401 with the permission-denied body, from
  a reader that yields its bytes again to the second \<^verbatim>\<open>ReadAll\<close>.
\<close>

definition stubborn_world :: world where
  "stubborn_world =
     \<lparr>replies = (\<lambda>i. Reply \<lparr>StatusCode = 401, Status = ''401 Unauthorized'',
                               Body = [ReadOk denied_body, ReadOk denied_body]\<rparr>),
      sent = [],
      uuid_results = (\<lambda>i. None),
      uuid_calls = 0,
      slices = (\<lambda>a. [])\<rparr>"

text \<open>The worlds whose responses all come from the network.\<close>

definition wire_replies :: "world \<Rightarrow> bool" where
  "wire_replies w = (\<forall>i resp. replies w i = Reply resp \<longrightarrow> (\<exists>b. Body resp = wire_body b))"

section \<open>What the specification says of the URL\<close>

text \<open>
  The specification gives the URL of a request as
  \<^verbatim>\<open>scheme://{hostname}:{port}/v{api-version}/{endpoint}[?query]\<close>, the scheme chosen by
  the secure flag.
\<close>

definition base_url :: "APIConnection \<Rightarrow> string" where
  "base_url r =
     (if Secure r then ''https://'' else ''http://'') @ Hostname r @ '':'' @ Port r
       @ ''/v'' @ APIVersion r @ ''/'' @ Endpoint r"

definition with_query :: "string \<Rightarrow> string list \<Rightarrow> string" where
  "with_query conn qs = (if Join qs ''&'' = [] then conn else conn @ ''?'' @ Join qs ''&'')"

section \<open>Properties of the parameter encoder and of the headers\<close>

lemma Split_nonempty: "Split s sep \<noteq> []"
  by (induction s) auto

lemma hd_Split: "hd (Split s sep) = takeWhile (\<lambda>c. c \<noteq> sep) s"
  by (induction s) auto

lemma tl_Split:
  "tl (Split s sep) =
     (if sep \<in> set s then Split (drop 1 (dropWhile (\<lambda>c. c \<noteq> sep) s)) sep else [])"
  by (induction s) (auto simp: Split_nonempty)

lemma length_Split_less_2: "length (Split s sep) < 2 \<longleftrightarrow> sep \<notin> set s"
proof -
  have "length (Split s sep) = Suc (length (tl (Split s sep)))"
    using Split_nonempty [of s sep] by (cases "Split s sep") auto
  then show ?thesis
    using Split_nonempty [of "drop 1 (dropWhile (\<lambda>c. c \<noteq> sep) s)" sep]
    by (auto simp: tl_Split)
qed

lemma Split_0: "Split s CHR ''='' ! 0 = pair_key s"
  using Split_nonempty [of s "CHR ''=''"] hd_Split [of s "CHR ''=''"]
  by (cases "Split s CHR ''=''") (auto simp: pair_key_def)

lemma Split_1: "CHR ''='' \<in> set s \<Longrightarrow> Split s CHR ''='' ! 1 = pair_value s"
proof -
  assume a: "CHR ''='' \<in> set s"
  have "Split s CHR ''='' ! 1 = hd (tl (Split s CHR ''=''))"
    using a length_Split_less_2 [of s "CHR ''=''"]
    by (cases "Split s CHR ''=''"; cases "tl (Split s CHR ''='')") auto
  then show ?thesis
    using a by (simp add: tl_Split hd_Split pair_value_def after_first_eq_def)
qed

lemma parseParams_loop_Cons:
  assumes "CHR ''='' \<in> set s"
  shows "parseParams_loop (AString s # ps) m =
         parseParams_loop ps (m(pair_key s \<mapsto> coerce (pair_value s)))"
proof -
  have two: "\<not> length (Split s CHR ''='') < 2"
    using assms by (simp add: length_Split_less_2)
  have v: "(if Split s CHR ''='' ! 1 = ''true'' \<or> Split s CHR ''='' ! 1 = ''false''
            then VBool (ParseBool (Split s CHR ''='' ! 1)) else VString (Split s CHR ''='' ! 1))
           = coerce (pair_value s)"
    unfolding Split_1 [OF assms] by (auto simp: coerce_def ParseBool_def)
  show ?thesis
    unfolding parseParams_loop.simps arg.case Let_def v Split_0 using two by simp
qed

lemma parseParams_loop_pairs:
  "\<forall>s \<in> set ss. CHR ''='' \<in> set s \<Longrightarrow>
   parseParams_loop (map AString ss) m =
     Return (foldl (\<lambda>m s. m(pair_key s \<mapsto> coerce (pair_value s))) m ss)"
proof (induction ss arbitrary: m)
  case Nil
  then show ?case by simp
next
  case (Cons s ss)
  have s: "CHR ''='' \<in> set s" and rest: "\<forall>t \<in> set ss. CHR ''='' \<in> set t"
    using Cons.prems by auto
  show ?case
    using Cons.IH [OF rest] by (simp only: list.map parseParams_loop_Cons [OF s] foldl_Cons)
qed


lemma no_eq_after_first:
  assumes "length (filter ((=) CHR ''='') s) = 1"
  shows "CHR ''='' \<notin> set (after_first_eq s)"
  using assms
proof (induction s)
  case Nil
  then show ?case by simp
next
  case (Cons c cs)
  show ?case
  proof (cases "c = CHR ''=''")
    case True
    then have "filter ((=) CHR ''='') cs = []" using Cons.prems by simp
    then show ?thesis using True by (auto simp: after_first_eq_def filter_empty_conv)
  next
    case False
    then show ?thesis using Cons by (simp add: after_first_eq_def)
  qed
qed

lemma pair_value_one_eq:
  "length (filter ((=) CHR ''='') s) = 1 \<Longrightarrow> pair_value s = after_first_eq s"
  using no_eq_after_first [of s] by (auto simp: pair_value_def takeWhile_eq_all_conv)

lemma one_eq_has_eq: "length (filter ((=) CHR ''='') s) = 1 \<Longrightarrow> CHR ''='' \<in> set s"
proof (rule ccontr)
  assume one: "length (filter ((=) CHR ''='') s) = 1" and "CHR ''='' \<notin> set s"
  then have "filter ((=) CHR ''='') s = []"
    by (auto simp: filter_empty_conv)
  then show False using one by simp
qed





lemma parseParams_map_AString:
  assumes "\<forall>s \<in> set ss. CHR ''='' \<in> set s"
  shows "parseParams (map AString ss) =
         Return (foldl (\<lambda>m s. m(pair_key s \<mapsto> coerce (pair_value s))) Map.empty ss, None)"
proof (cases ss)
  case Nil
  then show ?thesis by (simp add: parseParams_def)
next
  case (Cons s ss')
  have "parseParams (map AString ss) =
        (case parseParams_loop (map AString ss) Map.empty of
           Return result \<Rightarrow> Return (result, None) | Abort a \<Rightarrow> Abort a)"
    using Cons by (simp add: parseParams_def)
  then show ?thesis
    by (simp add: parseParams_loop_pairs [OF assms])
qed





text \<open>
  C4. What the encoder does with a first argument that is neither a
  \<^verbatim>\<open>key=value\<close> string nor a \<^verbatim>\<open>map[string]interface{}\<close>: a value of another type
  (a \<^verbatim>\<open>map[string]string\<close> among them) stops it with the panic of the failed type
  assertion \<^verbatim>\<open>param.(string)\<close>, a string without \<^verbatim>\<open>=\<close> with the panic of
  \<^verbatim>\<open>p[1]\<close>; only the nil interface reaches the \<^verbatim>\<open>default\<close> branch, which returns the
  error.
\<close>

theorem parseParams_first_arg_shapes:
  "parseParams (AOther # rest) = Abort TypeAssertion
   \<and> parseParams (AStringMap sm # rest) = Abort TypeAssertion
   \<and> (CHR ''='' \<notin> set s \<longrightarrow> parseParams (AString s # rest) = Abort IndexOutOfRange)
   \<and> parseParams (ANil # rest) = Return (Map.empty, Some CouldntParseParams)"
  by (simp add: parseParams_def length_Split_less_2)

theorem parseParams_first_arg_shapes_witness:
  "CHR ''='' \<notin> set ''abc''
   \<and> (parseParams [AString ''abc''] :: ((string \<rightharpoonup> unit jvalue) \<times> error option) outcome)
      = Abort IndexOutOfRange
   \<and> (parseParams [AOther] :: ((string \<rightharpoonup> unit jvalue) \<times> error option) outcome)
      = Abort TypeAssertion"
  using parseParams_first_arg_shapes [of "[] :: unit arg list" _ "''abc''"]
  by simp

lemma UpdateHeaders_outcome:
  "fst (UpdateHeaders hs r) =
     (if \<forall>h \<in> set hs. CHR ''='' \<in> set h then Return None else Abort IndexOutOfRange)"
  by (induction hs arbitrary: r) (auto simp: Let_def length_Split_less_2)




section \<open>Properties of the response classifier\<close>

lemma handleBadResponse_decoded:
  "handleBadResponse env resp =
     (if StatusCode resp = 401 then
        (case decoded env resp of
           None \<Rightarrow> Abort CouldntUnderstandResponse
         | Some e \<Rightarrow>
             if Name e = permDeniedError then Return (Some Retry)
             else Return (Some (StatusError (Status resp))))
      else if StatusCode resp \<in> {400, 422, 500} then Return (Some (StatusError (Status resp)))
      else Return None)"
  by (auto simp: handleBadResponse_def decoded_def httpErrors_def Let_def
      split: read_result.splits sum.splits)

text \<open>
  C3, as the code has it. On a response with status 401 whose body cannot be read or
  cannot be decoded as an Error Response, the classifier does not return: it panics
  (\<^verbatim>\<open>Couldn't understand response\<close>). On a 401 whose decoded body has a name other than
  \<^verbatim>\<open>PermissionDeniedError\<close> it returns the error made of the status line.
\<close>

theorem handleBadResponse_401:
  assumes "StatusCode resp = 401"
  shows "(decoded env resp = None \<longrightarrow> handleBadResponse env resp = Abort CouldntUnderstandResponse)
    \<and> (decoded env resp = Some e \<and> Name e \<noteq> permDeniedError \<longrightarrow>
         handleBadResponse env resp = Return (Some (StatusError (Status resp))))"
  using assms by (simp add: handleBadResponse_decoded)

theorem handleBadResponse_401_witness:
  "StatusCode \<lparr>StatusCode = 401, Status = ''401 Unauthorized'', Body = wire_body failed_body\<rparr> = 401
   \<and> decoded example_env \<lparr>StatusCode = 401, Status = ''401 Unauthorized'', Body = wire_body failed_body\<rparr>
       = Some (err_named ''AuthFailedError'')
   \<and> Name (err_named ''AuthFailedError'') \<noteq> permDeniedError
   \<and> handleBadResponse example_env
        \<lparr>StatusCode = 401, Status = ''401 Unauthorized'', Body = wire_body failed_body\<rparr>
       = Return (Some (StatusError ''401 Unauthorized''))
   \<and> decoded example_env \<lparr>StatusCode = 401, Status = ''401 Unauthorized'', Body = wire_body ''not json''\<rparr>
       = None
   \<and> handleBadResponse example_env
        \<lparr>StatusCode = 401, Status = ''401 Unauthorized'', Body = wire_body ''not json''\<rparr>
       = Abort CouldntUnderstandResponse"
  using
    handleBadResponse_401 [of "\<lparr>StatusCode = 401, Status = ''401 Unauthorized'', Body = wire_body failed_body\<rparr>"
      example_env "err_named ''AuthFailedError''"]
    handleBadResponse_401 [of "\<lparr>StatusCode = 401, Status = ''401 Unauthorized'', Body = wire_body ''not json''\<rparr>"
      example_env]
  by (simp add: decoded_def example_env_def wire_body_def failed_body_def denied_body_def
      err_named_def permDeniedError_def)

text \<open>
  C3 as the specification states it fails: on a 401 with a body that is no JSON the
  classifier returns no error value, it panics.
\<close>

theorem handleBadResponse_401_counterexample:
  "handleBadResponse example_env
     \<lparr>StatusCode = 401, Status = ''401 Unauthorized'', Body = wire_body ''<html>denied</html>''\<rparr>
   = Abort CouldntUnderstandResponse"
  by (simp add: handleBadResponse_def example_env_def wire_body_def failed_body_def
      denied_body_def httpErrors_def)

text \<open>
  C6, as the code has it. The classifier returns the retry signal exactly when the
  status is 401 and the decoded body has the name \<^verbatim>\<open>PermissionDeniedError\<close>. A status
  of the set 400, 401, 422, 500 that is not classified so gives the error made of the
  status line, but for a 401 whose body cannot be read or decoded, where the classifier
  panics and returns nothing. Every status outside the set gives no error, whatever the
  body is.
\<close>

theorem handleBadResponse_classes:
  "(handleBadResponse env resp = Return (Some Retry) \<longleftrightarrow>
      StatusCode resp = 401 \<and> map_option Name (decoded env resp) = Some permDeniedError)
   \<and> (StatusCode resp \<in> {400, 401, 422, 500}
        \<and> \<not> (StatusCode resp = 401 \<and> decoded env resp = None)
        \<and> handleBadResponse env resp \<noteq> Return (Some Retry) \<longrightarrow>
        handleBadResponse env resp = Return (Some (StatusError (Status resp))))
   \<and> (StatusCode resp = 401 \<and> decoded env resp = None \<longrightarrow>
        handleBadResponse env resp = Abort CouldntUnderstandResponse)
   \<and> (StatusCode resp \<notin> {400, 401, 422, 500} \<longrightarrow> handleBadResponse env resp = Return None)"
  by (auto simp: handleBadResponse_decoded split: option.splits)

theorem handleBadResponse_classes_witness:
  "handleBadResponse example_env
     \<lparr>StatusCode = 401, Status = ''401 Unauthorized'', Body = wire_body denied_body\<rparr>
     = Return (Some Retry)
   \<and> handleBadResponse example_env
       \<lparr>StatusCode = 401, Status = ''401 Unauthorized'', Body = wire_body failed_body\<rparr>
     = Return (Some (StatusError ''401 Unauthorized''))
   \<and> handleBadResponse example_env
       \<lparr>StatusCode = 401, Status = ''401 Unauthorized'', Body = wire_body ''not json''\<rparr>
     = Abort CouldntUnderstandResponse
   \<and> handleBadResponse example_env
       \<lparr>StatusCode = 500, Status = ''500 Internal Server Error'', Body = wire_body ''oops!''\<rparr>
     = Return (Some (StatusError ''500 Internal Server Error''))
   \<and> handleBadResponse example_env
       \<lparr>StatusCode = 200, Status = ''200 OK'', Body = wire_body ''anything''\<rparr>
     = Return None"
  using
    handleBadResponse_classes [of example_env
      "\<lparr>StatusCode = 401, Status = ''401 Unauthorized'', Body = wire_body denied_body\<rparr>"]
    handleBadResponse_classes [of example_env
      "\<lparr>StatusCode = 401, Status = ''401 Unauthorized'', Body = wire_body failed_body\<rparr>"]
    handleBadResponse_classes [of example_env
      "\<lparr>StatusCode = 401, Status = ''401 Unauthorized'', Body = wire_body ''not json''\<rparr>"]
    handleBadResponse_classes [of example_env
      "\<lparr>StatusCode = 500, Status = ''500 Internal Server Error'', Body = wire_body ''oops!''\<rparr>"]
    handleBadResponse_classes [of example_env
      "\<lparr>StatusCode = 200, Status = ''200 OK'', Body = wire_body ''anything''\<rparr>"]
  by (simp add: decoded_def example_env_def wire_body_def failed_body_def denied_body_def
      err_named_def permDeniedError_def)

text \<open>
  C6 as the specification states it fails: a 401 with an empty body is a status of the
  set that is not classified as retry, and the classifier returns no error for it: it
  panics.
\<close>

theorem handleBadResponse_classes_counterexample:
  "handleBadResponse example_env
     \<lparr>StatusCode = 401, Status = ''401 Unauthorized'', Body = wire_body []\<rparr>
   = Abort CouldntUnderstandResponse"
  by (simp add: handleBadResponse_def example_env_def wire_body_def failed_body_def
      denied_body_def httpErrors_def)

section \<open>Properties of the template renderer and of the URL\<close>

lemma parseTemplate_map:
  "parseTemplate env f [AStringMap m] =
     (case template_Parse env f of
        Inl err \<Rightarrow> Return (Inl err)
      | Inr tpl \<Rightarrow>
          if \<exists>k \<in> dom m. \<not> Contains f (''{{.'' @ k @ ''}}'') then Return (Inl ArgNotFound)
          else Return (tpl m))"
  by (simp add: parseTemplate_def split: sum.splits)

lemma parse_secConnTemplate:
  "parse_fields secConnTemplate =
     Some (map Lit ''https://'' @ [Field [''hostname''], Lit CHR '':'', Field [''port''],
       Lit CHR ''/'', Lit CHR ''v'', Field [''version''], Lit CHR ''/'', Field [''endpoint'']])"
  by (simp add: secConnTemplate_def chain_char_def ident_char_def digit_char_def)

lemma parse_connTemplate:
  "parse_fields connTemplate =
     Some (map Lit ''http://'' @ [Field [''hostname''], Lit CHR '':'', Field [''port''],
       Lit CHR ''/'', Lit CHR ''v'', Field [''version''], Lit CHR ''/'', Field [''endpoint'']])"
  by (simp add: connTemplate_def chain_char_def ident_char_def digit_char_def)

lemma keys_in_templates:
  "Contains secConnTemplate ''{{.hostname}}''" "Contains secConnTemplate ''{{.port}}''"
  "Contains secConnTemplate ''{{.endpoint}}''" "Contains secConnTemplate ''{{.version}}''"
  "Contains connTemplate ''{{.hostname}}''" "Contains connTemplate ''{{.port}}''"
  "Contains connTemplate ''{{.endpoint}}''" "Contains connTemplate ''{{.version}}''"
  by (simp_all add: secConnTemplate_def connTemplate_def)

lemma parseTemplate_session:
  assumes "renders_fields env"
  shows "parseTemplate env (if Secure r then secConnTemplate else connTemplate)
           [AStringMap [''hostname'' \<mapsto> Hostname r, ''port'' \<mapsto> Port r,
                        ''endpoint'' \<mapsto> Endpoint r, ''version'' \<mapsto> APIVersion r]]
         = Return (Inr (base_url r))"
proof (cases "Secure r")
  case True
  obtain tpl where p: "template_Parse env secConnTemplate = Inr tpl"
    and t: "\<And>m s. render_pieces (map Lit ''https://'' @ [Field [''hostname''], Lit CHR '':'', Field [''port''],
       Lit CHR ''/'', Lit CHR ''v'', Field [''version''], Lit CHR ''/'', Field [''endpoint'']]) m = Some (Output s)
       \<Longrightarrow> tpl m = Inr s"
    using assms parse_secConnTemplate unfolding renders_fields_def by blast
  have "tpl [''hostname'' \<mapsto> Hostname r, ''port'' \<mapsto> Port r,
             ''endpoint'' \<mapsto> Endpoint r, ''version'' \<mapsto> APIVersion r] = Inr (base_url r)"
    by (rule t) (simp add: base_url_def True)
  then show ?thesis
    using True p by (simp add: parseTemplate_map keys_in_templates)
next
  case False
  obtain tpl where p: "template_Parse env connTemplate = Inr tpl"
    and t: "\<And>m s. render_pieces (map Lit ''http://'' @ [Field [''hostname''], Lit CHR '':'', Field [''port''],
       Lit CHR ''/'', Lit CHR ''v'', Field [''version''], Lit CHR ''/'', Field [''endpoint'']]) m = Some (Output s)
       \<Longrightarrow> tpl m = Inr s"
    using assms parse_connTemplate unfolding renders_fields_def by blast
  have "tpl [''hostname'' \<mapsto> Hostname r, ''port'' \<mapsto> Port r,
             ''endpoint'' \<mapsto> Endpoint r, ''version'' \<mapsto> APIVersion r] = Inr (base_url r)"
    by (rule t) (simp add: base_url_def False)
  then show ?thesis
    using False p by (simp add: parseTemplate_map keys_in_templates)
qed


lemma UpdateHeaders_single:
  "CHR ''='' \<in> set h \<Longrightarrow>
   UpdateHeaders [h] r = (Return None, r\<lparr>Headers := (Headers r)(pair_key h \<mapsto> pair_value h)\<rparr>)"
  by (simp add: Let_def length_Split_less_2 Split_0 Split_1 del: One_nat_def)

lemma example_env_renders: "renders_fields example_env"
  by (auto simp: renders_fields_def example_env_def)

lemma prepConn_renders:
  assumes "renders_fields env"
  shows "prepConn env r w =
    (Return (Inr (with_query (base_url r)
        (map QueryEscape (case QParams r of None \<Rightarrow> [] | Some a \<Rightarrow> slices w a)))),
     (if APIToken r \<noteq> []
      then r\<lparr>Headers := (Headers r)(''Auth-Token'' \<mapsto> takeWhile (\<lambda>c. c \<noteq> CHR ''='') (APIToken r))\<rparr>
      else r),
     (case QParams r of
        None \<Rightarrow> w
      | Some a \<Rightarrow> w\<lparr>slices := (slices w)(a := map QueryEscape (slices w a))\<rparr>))"
proof -
  have hdr: "UpdateHeaders [''Auth-Token='' @ APIToken r] r =
      (Return None,
       r\<lparr>Headers := (Headers r)(''Auth-Token'' \<mapsto> takeWhile (\<lambda>c. c \<noteq> CHR ''='') (APIToken r))\<rparr>)"
    using UpdateHeaders_single [of "''Auth-Token='' @ APIToken r" r]
    by (simp add: pair_key_def pair_value_def after_first_eq_def)
  show ?thesis
    unfolding prepConn_def Let_def parseTemplate_session [OF assms] USetToken_def hdr
    by (cases "QParams r") (simp_all add: with_query_def)
qed

lemma example_env_fields:
  "Unmarshal_ErrResponse21 example_env b =
     (if b = denied_body then Inr (err_named ''PermissionDeniedError'')
      else if b = failed_body then Inr (err_named ''AuthFailedError'')
      else Inl (LibError ''json''))"
  "Unmarshal_ReturnLogin example_env b =
     (if b = login_body then Inr \<lparr>Key = ''tok1'', Version = ''v2.1''\<rparr>
      else Inl (LibError ''json''))"
  "Marshal example_env m = Inr ''{}''"
  "NewRequest example_env v u = None"
  by (simp_all add: example_env_def)

lemmas run_defs =
  doRequest_attempt_def doRequest_step_def verb_def ToLower_def lower_byte_def Trim_def
  prepConn_renders [OF example_env_renders] base_url_def with_query_def
  QueryEscape_def escape_byte_def unreserved_def upperhex_def
  NewUUID_def Do_def handleBadResponse_def httpErrors_def permDeniedError_def wire_body_def
  Login_via_def Put_via_def parseParams_def ParseBool_def
  example_env_fields example_conn_def example_world_def
  denied_world_def retry_world_def retried_world_def
  denied_body_def failed_body_def login_body_def err_named_def USetToken_def

lemma prefix_with_query: "prefix p conn \<Longrightarrow> prefix p (with_query conn qs)"
  by (auto simp: with_query_def prefix_def)

lemma prefix_base_url: "prefix (if Secure r then ''https://'' else ''http://'') (base_url r)"
  by (simp add: base_url_def)

lemma length_Split: "length (Split s sep) = Suc (length (filter ((=) sep) s))"
proof (induction s)
  case Nil
  then show ?case by simp
next
  case (Cons c s)
  have "length (Split s sep) = Suc (length (tl (Split s sep)))"
    using Split_nonempty [of s sep] by (cases "Split s sep") auto
  then show ?case using Cons by auto
qed

lemma parseTemplate_args_Cons:
  "parseTemplate_args (AString s # args) m =
     parseTemplate_args args
       (if length (filter ((=) CHR ''='') s) = 1 then m(pair_key s \<mapsto> after_first_eq s) else m)"
proof (cases "length (filter ((=) CHR ''='') s) = 1")
  case True
  have v: "Split s CHR ''='' ! 1 = after_first_eq s"
    using Split_1 [OF one_eq_has_eq [OF True]] pair_value_one_eq [OF True] by simp
  have two: "length (Split s CHR ''='') = 2"
    using True by (simp add: length_Split)
  show ?thesis
    unfolding parseTemplate_args.simps arg.case Let_def two v Split_0 using True by simp
next
  case False
  then have "length (Split s CHR ''='') \<noteq> 2"
    by (simp add: length_Split)
  then show ?thesis using False by (simp add: Let_def)
qed

lemma parseTemplate_args_named:
  "parseTemplate_args (map AString ss) m =
     Return (foldl (\<lambda>m s. if length (filter ((=) CHR ''='') s) = 1
                   then m(pair_key s \<mapsto> after_first_eq s) else m) m ss)"
proof (induction ss arbitrary: m)
  case Nil
  then show ?case by simp
next
  case (Cons s ss)
  show ?case
    unfolding list.map parseTemplate_args_Cons Cons.IH foldl_Cons by (rule refl)
qed

lemma parseTemplate_map_rest:
  "parseTemplate env f (AStringMap m # rest) =
     (case template_Parse env f of
        Inl err \<Rightarrow> Return (Inl err)
      | Inr tpl \<Rightarrow>
          if \<exists>k \<in> dom m. \<not> Contains f (''{{.'' @ k @ ''}}'') then Return (Inl ArgNotFound)
          else Return (tpl m))"
  by (simp add: parseTemplate_def split: sum.splits)

lemma parseTemplate_AString:
  "parseTemplate env f (AString s # args) =
     (case template_Parse env f of
        Inl err \<Rightarrow> Return (Inl err)
      | Inr tpl \<Rightarrow>
          (case parseTemplate_args (AString s # args) Map.empty of
             Abort a \<Rightarrow> Abort a
           | Return argm \<Rightarrow>
               if \<exists>k \<in> dom argm. \<not> Contains f (''{{.'' @ k @ ''}}'')
               then Return (Inl ArgNotFound)
               else Return (tpl argm)))"
  by (simp add: parseTemplate_def del: parseTemplate_args.simps split: sum.splits)

lemma parseTemplate_strings:
  assumes "ss \<noteq> []"
  shows "parseTemplate env f (map AString ss) =
     (case template_Parse env f of
        Inl err \<Rightarrow> Return (Inl err)
      | Inr tpl \<Rightarrow>
          if \<exists>k \<in> dom (named_args ss). \<not> Contains f (''{{.'' @ k @ ''}}'')
          then Return (Inl ArgNotFound)
          else Return (tpl (named_args ss)))"
proof -
  obtain s ss' where ss: "ss = s # ss'"
    using assms by (cases ss) auto
  have args: "parseTemplate_args (AString s # map AString ss') Map.empty = Return (named_args ss)"
    using parseTemplate_args_named [of ss Map.empty] by (simp only: ss list.map named_args_def)
  have "parseTemplate env f (AString s # map AString ss') =
     (case template_Parse env f of
        Inl err \<Rightarrow> Return (Inl err)
      | Inr tpl \<Rightarrow>
          if \<exists>k \<in> dom (named_args ss). \<not> Contains f (''{{.'' @ k @ ''}}'')
          then Return (Inl ArgNotFound)
          else Return (tpl (named_args ss)))"
    unfolding parseTemplate_AString args by (simp split: sum.splits)
  then show ?thesis
    by (simp only: ss list.map)
qed

lemma parseTemplate_args_mixed:
  "(\<forall>s. x \<noteq> AString s) \<Longrightarrow>
   parseTemplate_args (map AString ss @ x # rest) m = Abort TypeAssertion"
proof (induction ss arbitrary: m)
  case Nil
  then show ?case by (cases x) simp_all
next
  case (Cons s ss)
  show ?case
    unfolding list.map append_Cons parseTemplate_args_Cons by (rule Cons.IH [OF Cons.prems])
qed

lemma parseTemplate_mixed:
  assumes "template_Parse env f = Inr tpl" and "ss \<noteq> []" and "\<forall>s. x \<noteq> AString s"
  shows "parseTemplate env f (map AString ss @ x # rest) = Abort TypeAssertion"
proof -
  obtain s ss' where ss: "ss = s # ss'"
    using assms(2) by (cases ss) auto
  have args: "parseTemplate_args (AString s # map AString ss' @ x # rest) Map.empty
      = Abort TypeAssertion"
    using parseTemplate_args_mixed [OF assms(3), of ss rest Map.empty]
    by (simp only: ss list.map append_Cons)
  have "parseTemplate env f (AString s # map AString ss' @ x # rest) = Abort TypeAssertion"
    unfolding parseTemplate_AString args using assms(1) by simp
  then show ?thesis
    by (simp only: ss list.map append_Cons)
qed

lemma parseTemplate_default:
  assumes "template_Parse env f = Inr tpl" and "\<forall>s. x \<noteq> AString s" and "\<forall>m. x \<noteq> AStringMap m"
  shows "parseTemplate env f (x # rest) = Return (tpl Map.empty)"
  using assms by (cases x) (simp_all add: parseTemplate_def)

text \<open>
  C8, as the code has it. \<^verbatim>\<open>parseTemplate\<close> returns the error of the parser when the
  template does not parse, whatever the arguments. For a template that parses, the
  mapping is the first argument when that is a mapping (what follows it is not read),
  and \<open>named_args\<close> of the arguments when they are strings: the arguments with exactly
  one \<^verbatim>\<open>=\<close>, as name and value. The function then returns the error \<open>ArgNotFound\<close> when
  some key \<^verbatim>\<open>k\<close> of the mapping does not occur in the template text as \<^verbatim>\<open>{{.k}}\<close>,
  and otherwise what executing the template on the mapping gives: the rendered string,
  or the error of the execution. A string followed by an argument that is not a string
  ends in the failed type assertion of line 132, a first argument that is neither a
  string nor a mapping executes the template on the empty mapping, and no argument at
  all is the index panic of line 127. For the session, with an engine that renders
  templates of text and field actions as \<^verbatim>\<open>text/template\<close> does, \<^verbatim>\<open>prepConn\<close> returns the
  URL of the specification, which begins with \<^verbatim>\<open>https://\<close> when the secure flag is set
  and with \<^verbatim>\<open>http://\<close> when it is not.
\<close>

theorem parseTemplate_strict:
  "(template_Parse env f = Inl err \<longrightarrow> parseTemplate env f args = Return (Inl err))
   \<and> (template_Parse env f = Inr tpl \<longrightarrow>
        parseTemplate env f (AStringMap m # rest) =
          (if \<exists>k \<in> dom m. \<not> Contains f (''{{.'' @ k @ ''}}'') then Return (Inl ArgNotFound)
           else Return (tpl m)))
   \<and> (template_Parse env f = Inr tpl \<and> ss \<noteq> [] \<longrightarrow>
        parseTemplate env f (map AString ss) =
          (if \<exists>k \<in> dom (named_args ss). \<not> Contains f (''{{.'' @ k @ ''}}'')
           then Return (Inl ArgNotFound)
           else Return (tpl (named_args ss))))
   \<and> (template_Parse env f = Inr tpl \<and> ss \<noteq> [] \<and> (\<forall>s. x \<noteq> AString s) \<longrightarrow>
        parseTemplate env f (map AString ss @ x # rest) = Abort TypeAssertion)
   \<and> (template_Parse env f = Inr tpl \<and> (\<forall>s. x \<noteq> AString s) \<and> (\<forall>m. x \<noteq> AStringMap m) \<longrightarrow>
        parseTemplate env f (x # rest) = Return (tpl Map.empty))
   \<and> (template_Parse env f = Inr tpl \<longrightarrow> parseTemplate env f [] = Abort IndexOutOfRange)
   \<and> (renders_fields env \<longrightarrow>
        (\<exists>url. fst (prepConn env r w) = Return (Inr url)
           \<and> url = with_query (base_url r)
                (map QueryEscape (case QParams r of None \<Rightarrow> [] | Some a \<Rightarrow> slices w a))
           \<and> prefix (if Secure r then ''https://'' else ''http://'') url))"
proof (intro conjI impI)
  assume "template_Parse env f = Inl err"
  then show "parseTemplate env f args = Return (Inl err)"
    by (simp add: parseTemplate_def)
next
  assume "template_Parse env f = Inr tpl"
  then show "parseTemplate env f (AStringMap m # rest) =
          (if \<exists>k \<in> dom m. \<not> Contains f (''{{.'' @ k @ ''}}'') then Return (Inl ArgNotFound)
           else Return (tpl m))"
    by (simp add: parseTemplate_map_rest)
next
  assume "template_Parse env f = Inr tpl \<and> ss \<noteq> []"
  then show "parseTemplate env f (map AString ss) =
          (if \<exists>k \<in> dom (named_args ss). \<not> Contains f (''{{.'' @ k @ ''}}'')
           then Return (Inl ArgNotFound)
           else Return (tpl (named_args ss)))"
    by (simp add: parseTemplate_strings)
next
  assume "template_Parse env f = Inr tpl \<and> ss \<noteq> [] \<and> (\<forall>s. x \<noteq> AString s)"
  then show "parseTemplate env f (map AString ss @ x # rest) = Abort TypeAssertion"
    by (metis parseTemplate_mixed)
next
  assume "template_Parse env f = Inr tpl \<and> (\<forall>s. x \<noteq> AString s) \<and> (\<forall>m. x \<noteq> AStringMap m)"
  then show "parseTemplate env f (x # rest) = Return (tpl Map.empty)"
    by (metis parseTemplate_default)
next
  assume "template_Parse env f = Inr tpl"
  then show "parseTemplate env f [] = Abort IndexOutOfRange"
    by (simp add: parseTemplate_def)
next
  assume "renders_fields env"
  then show "\<exists>url. fst (prepConn env r w) = Return (Inr url)
           \<and> url = with_query (base_url r)
                (map QueryEscape (case QParams r of None \<Rightarrow> [] | Some a \<Rightarrow> slices w a))
           \<and> prefix (if Secure r then ''https://'' else ''http://'') url"
    by (simp add: prepConn_renders prefix_with_query prefix_base_url)
qed

theorem parseTemplate_strict_witness:
  "parseTemplate example_env ''{{if}}'' [AStringMap [''hostname'' \<mapsto> ''cluster'']]
     = Return (Inl (LibError ''template''))
   \<and> parseTemplate example_env ''http://{{.hostname}}/''
       [AStringMap [''hostname'' \<mapsto> ''cluster'', ''port'' \<mapsto> ''7717'']]
     = Return (Inl ArgNotFound)
   \<and> parseTemplate example_env ''http://{{.hostname}}/'' [AStringMap [''hostname'' \<mapsto> ''cluster'']]
     = Return (Inr ''http://cluster/'')
   \<and> named_args [''hostname=cluster'', ''x=1=2''] = [''hostname'' \<mapsto> ''cluster'']
   \<and> parseTemplate example_env ''http://{{.hostname}}/''
       [AString ''hostname=cluster'', AString ''x=1=2'']
     = Return (Inr ''http://cluster/'')
   \<and> parseTemplate example_env ''http://{{.hostname}}/''
       [AString ''hostname=cluster'', AString ''port=7717'']
     = Return (Inl ArgNotFound)
   \<and> parseTemplate example_env ''http://{{.hostname}}/''
       [AString ''hostname=cluster'', ANil]
     = Abort TypeAssertion
   \<and> parseTemplate example_env ''http://cluster/'' [(ANil :: unit arg)] = Return (Inr ''http://cluster/'')
   \<and> parseTemplate example_env ''http://{{.hostname}}/'' ([] :: unit arg list) = Abort IndexOutOfRange
   \<and> fst (prepConn example_env example_conn login_world) = Return (Inr ''https://cluster:7717/v2.1/'')"
proof -
  have bad: "template_Parse example_env ''{{if}}'' = Inl (LibError ''template'')"
    by (simp add: example_env_def chain_char_def ident_char_def digit_char_def)
  obtain tpl where ok: "template_Parse example_env ''http://{{.hostname}}/'' = Inr tpl"
    and run: "tpl [''hostname'' \<mapsto> ''cluster''] = Inr ''http://cluster/''"
    by (simp add: example_env_def chain_char_def ident_char_def digit_char_def)
  obtain lit where ok_lit: "template_Parse example_env ''http://cluster/'' = Inr lit"
    and run_lit: "lit Map.empty = Inr ''http://cluster/''"
    by (simp add: example_env_def chain_char_def ident_char_def digit_char_def)
  have n1: "named_args [''hostname=cluster'', ''x=1=2''] = [''hostname'' \<mapsto> ''cluster'']"
    by (simp add: named_args_def pair_key_def after_first_eq_def)
  have n2: "named_args [''hostname=cluster'', ''port=7717'']
      = [''hostname'' \<mapsto> ''cluster'', ''port'' \<mapsto> ''7717'']"
    by (simp add: named_args_def pair_key_def after_first_eq_def)
  have strs: "template_Parse example_env ''http://{{.hostname}}/'' = Inr tpl
      \<and> [''hostname=cluster'', ''x=1=2''] \<noteq> []"
    using ok by simp
  have strs2: "template_Parse example_env ''http://{{.hostname}}/'' = Inr tpl
      \<and> [''hostname=cluster'', ''port=7717''] \<noteq> []"
    using ok by simp
  have mixed: "template_Parse example_env ''http://{{.hostname}}/'' = Inr tpl
      \<and> [''hostname=cluster''] \<noteq> [] \<and> (\<forall>s. (ANil :: unit arg) \<noteq> AString s)"
    using ok by simp
  have other: "template_Parse example_env ''http://cluster/'' = Inr lit
      \<and> (\<forall>s. (ANil :: unit arg) \<noteq> AString s) \<and> (\<forall>m. (ANil :: unit arg) \<noteq> AStringMap m)"
    using ok_lit by simp
  note a = parseTemplate_strict [THEN conjunct1, rule_format, OF bad]
  note b = parseTemplate_strict [THEN conjunct2, THEN conjunct1, rule_format, OF ok]
  note c = parseTemplate_strict [THEN conjunct2, THEN conjunct2, THEN conjunct1, THEN mp, OF strs]
  note c' = parseTemplate_strict [THEN conjunct2, THEN conjunct2, THEN conjunct1, THEN mp, OF strs2]
  note d = parseTemplate_strict [THEN conjunct2, THEN conjunct2, THEN conjunct2, THEN conjunct1,
      THEN mp, OF mixed, of "[]"]
  note e = parseTemplate_strict [THEN conjunct2, THEN conjunct2, THEN conjunct2, THEN conjunct2,
      THEN conjunct1, THEN mp, OF other, of "[]"]
  note f = parseTemplate_strict [THEN conjunct2, THEN conjunct2, THEN conjunct2, THEN conjunct2,
      THEN conjunct2, THEN conjunct1, THEN mp, OF ok]
  note g = parseTemplate_strict [THEN conjunct2, THEN conjunct2, THEN conjunct2, THEN conjunct2,
      THEN conjunct2, THEN conjunct2, THEN mp, OF example_env_renders, of example_conn login_world]
  have b1: "parseTemplate example_env ''http://{{.hostname}}/''
       [AStringMap [''hostname'' \<mapsto> ''cluster'', ''port'' \<mapsto> ''7717'']]
     = Return (Inl ArgNotFound)"
    unfolding b by simp
  have b2: "parseTemplate example_env ''http://{{.hostname}}/''
       [AStringMap [''hostname'' \<mapsto> ''cluster'']] = Return (Inr ''http://cluster/'')"
    unfolding b by (simp add: run)
  have c1: "parseTemplate example_env ''http://{{.hostname}}/''
       [AString ''hostname=cluster'', AString ''x=1=2''] = Return (Inr ''http://cluster/'')"
    using c by (simp add: n1 run)
  have c2: "parseTemplate example_env ''http://{{.hostname}}/''
       [AString ''hostname=cluster'', AString ''port=7717''] = Return (Inl ArgNotFound)"
    using c' by (simp add: n2)
  have d1: "parseTemplate example_env ''http://{{.hostname}}/''
       [AString ''hostname=cluster'', ANil] = Abort TypeAssertion"
    using d by simp
  have e1: "parseTemplate example_env ''http://cluster/'' [(ANil :: unit arg)]
      = Return (Inr ''http://cluster/'')"
    using e by (simp add: run_lit)
  have url: "with_query (base_url example_conn)
      (map QueryEscape (case QParams example_conn of None \<Rightarrow> [] | Some a \<Rightarrow> slices login_world a))
      = ''https://cluster:7717/v2.1/''"
    by (simp add: with_query_def base_url_def example_conn_def)
  have g1: "fst (prepConn example_env example_conn login_world)
      = Return (Inr ''https://cluster:7717/v2.1/'')"
    using g [unfolded url] by blast
  show ?thesis
    by (intro conjI) (rule a, rule b1, rule b2, rule n1, rule c1, rule c2, rule d1, rule e1,
      rule f, rule g1)
qed

text \<open>
  C8 as the specification states it fails: the template \<^verbatim>\<open>{{.a}}{{.a.b}}\<close> parses and
  references \<^verbatim>\<open>a\<close>, the only key of the mapping of \<^verbatim>\<open>a\<close> to \<^verbatim>\<open>v\<close>, and \<^verbatim>\<open>parseTemplate\<close>
  returns the error of the execution (the string \<^verbatim>\<open>v\<close> has no field \<^verbatim>\<open>b\<close>), not a
  rendered string.
\<close>

theorem parseTemplate_execute_counterexample:
  "\<not> isl (template_Parse example_env ''{{.a}}{{.a.b}}'')
   \<and> dom [''a'' \<mapsto> ''v''] = {''a''}
   \<and> Contains ''{{.a}}{{.a.b}}'' (''{{.'' @ ''a'' @ ''}}'')
   \<and> parseTemplate example_env ''{{.a}}{{.a.b}}'' [AStringMap [''a'' \<mapsto> ''v'']]
       = Return (Inl (LibError ''cannot evaluate field''))"
  by (simp add: parseTemplate_def example_env_def chain_char_def ident_char_def digit_char_def)

section \<open>Properties of Login\<close>

lemma Login_via_cached:
  "APIToken r \<noteq> [] \<Longrightarrow> Login_via d env r w = (Return None, r, w)"
  by (simp add: Login_via_def)

lemma Login_via_nil_token:
  "Login_via d env r w = (Return None, r', w') \<Longrightarrow> APIToken r' \<noteq> []"
  by (auto simp: Login_via_def Let_def
      split: if_splits prod.splits outcome.splits option.splits sum.splits)

text \<open>
  C7. With a cached token that is not empty, \<^verbatim>\<open>Login\<close> returns nil and leaves the
  session and the world as they are: no request is sent. A \<^verbatim>\<open>Login\<close> that returned nil
  has left a token that is not empty, so a second \<^verbatim>\<open>Login\<close> after it is of that kind.
\<close>

theorem Login_cached_token:
  "(APIToken r \<noteq> [] \<longrightarrow> Login n env r w = (Return None, r, w))
   \<and> (Login n env r w = (Return None, r', w') \<longrightarrow>
        APIToken r' \<noteq> [] \<and> Login m env r' w' = (Return None, r', w'))"
  unfolding Login_def
  using Login_via_cached Login_via_nil_token by blast

theorem Login_cached_token_witness:
  "APIToken example_conn \<noteq> []
   \<and> Login (Suc 0) example_env example_conn login_world = (Return None, example_conn, login_world)
   \<and> fst (Login (Suc 0) example_env logged_out login_world) = Return None
   \<and> length (sent (snd (snd (Login (Suc 0) example_env logged_out login_world)))) = 1
   \<and> Login (Suc 0) example_env (fst (snd (Login (Suc 0) example_env logged_out login_world)))
        (snd (snd (Login (Suc 0) example_env logged_out login_world)))
      = (Return None, fst (snd (Login (Suc 0) example_env logged_out login_world)),
         snd (snd (Login (Suc 0) example_env logged_out login_world)))"
proof -
  have tok: "APIToken example_conn \<noteq> []"
    by (simp add: example_conn_def)
  have run: "fst (Login (Suc 0) example_env logged_out login_world) = Return None"
    by (simp add: Login_def run_defs login_world_def logged_out_def)
  have one: "length (sent (snd (snd (Login (Suc 0) example_env logged_out login_world)))) = 1"
    by (simp add: Login_def run_defs login_world_def logged_out_def)
  have eq: "Login (Suc 0) example_env logged_out login_world
      = (Return None, fst (snd (Login (Suc 0) example_env logged_out login_world)),
         snd (snd (Login (Suc 0) example_env logged_out login_world)))"
    by (rule prod_eqI) (simp_all only: fst_conv snd_conv run prod.collapse)
  note first = Login_cached_token [THEN conjunct1, rule_format, OF tok]
  note again = Login_cached_token [THEN conjunct2, rule_format, OF eq, THEN conjunct2]
  show ?thesis
    by (intro conjI) (rule tok, rule first, rule run, rule one, rule again)
qed

section \<open>Properties of the request pipeline\<close>

lemma UpdateHeaders_frame:
  "UpdateHeaders hs r = (out, r1) \<Longrightarrow>
   APIToken r1 = APIToken r \<and> Mutex r1 = Mutex r \<and> QParams r1 = QParams r"
proof (induction hs arbitrary: r)
  case Nil
  then show ?case by auto
next
  case (Cons h hs)
  show ?case
  proof (cases "length (Split h CHR ''='') < 2")
    case True
    then show ?thesis using Cons.prems by auto
  next
    case False
    then have "UpdateHeaders hs (r\<lparr>Headers := (Headers r)(Split h CHR ''='' ! 0 \<mapsto> Split h CHR ''='' ! 1)\<rparr>)
        = (out, r1)"
      using Cons.prems by (simp add: Let_def)
    from Cons.IH [OF this] show ?thesis by simp
  qed
qed

lemma prepConn_frame:
  assumes "prepConn env r w = (out, r1, w1)"
  shows "APIToken r1 = APIToken r \<and> Mutex r1 = Mutex r \<and> QParams r1 = QParams r
    \<and> sent w1 = sent w \<and> replies w1 = replies w
    \<and> uuid_results w1 = uuid_results w \<and> uuid_calls w1 = uuid_calls w"
proof -
  obtain o2 r2 where u: "UpdateHeaders [''Auth-Token='' @ APIToken r] r = (o2, r2)"
    by (cases "UpdateHeaders [''Auth-Token='' @ APIToken r] r") auto
  note f = UpdateHeaders_frame [OF u]
  show ?thesis
    using assms f unfolding prepConn_def Let_def u
    by (auto split: outcome.splits sum.splits if_splits prod.splits option.splits)
qed


lemma handleBadResponse_drained:
  assumes "isl (Unmarshal_ErrResponse21 env [])" and "StatusCode resp = 401"
  shows "handleBadResponse env (resp\<lparr>Body := []\<rparr>) = Abort CouldntUnderstandResponse"
  using assms by (auto simp: handleBadResponse_def Let_def isl_def)

lemma attempt_wire_401:
  assumes rej: "isl (Unmarshal_ErrResponse21 env [])"
    and rep: "replies w (length (sent w)) = Reply resp" "StatusCode resp = 401"
      "Body resp = wire_body b"
    and att: "doRequest_attempt env method endpoint body qparams sensitive r w = (att, r1, w1)"
  shows "APIToken r1 = APIToken r \<and> (\<forall>rb e. att \<noteq> Classified rb e)
    \<and> (sent w1 = sent w
        \<or> (\<exists>req. sent w1 = sent w @ [req] \<and> att = Stopped CouldntUnderstandResponse))"
proof (cases "Mutex r")
  case True
  then show ?thesis using att by (auto simp: doRequest_attempt_def)
next
  case unlocked: False
  show ?thesis
  proof (cases "verb (ToLower method)")
    case None
    then show ?thesis using att unlocked by (auto simp: doRequest_attempt_def)
  next
    case (Some m)
    obtain po r0 w0 where pc:
      "prepConn env (r\<lparr>Mutex := True, Method := m, Endpoint := Trim endpoint ''/'',
         QParams := qparams\<rparr>) w = (po, r0, w0)"
      by (metis prod_cases3)
    have f: "APIToken r0 = APIToken r" "sent w0 = sent w" "replies w0 = replies w"
      using prepConn_frame [OF pc] by simp_all
    have hb: "handleBadResponse env (resp\<lparr>Body := []\<rparr>) = Abort CouldntUnderstandResponse"
      by (rule handleBadResponse_drained [OF rej rep(2)])
    show ?thesis
      using att unlocked Some f rep hb
      by (auto simp: doRequest_attempt_def Let_def pc NewUUID_def Do_def wire_body_def
          split: outcome.splits sum.splits option.splits if_splits)
  qed
qed


lemma doRequest_step_unclassified:
  assumes "doRequest_attempt env method endpoint body qparams sensitive r w = (att, r1, w1)"
    and "\<forall>rb e. att \<noteq> Classified rb e"
  shows "doRequest_step env self method endpoint body qparams sensitive retry r w =
    ((case att of Stopped a \<Rightarrow> Abort a | Returned res \<Rightarrow> Return res | Classified rb e \<Rightarrow> Abort OutOfFuel),
     r1, w1)"
  using assms by (cases att) (simp_all add: doRequest_step_def)

text \<open>
  C2. What the pipeline does when the server answers a request with status 401 and a
  body read from the network, the permission-denied body among them, given that
  \<^verbatim>\<open>json.Unmarshal\<close> rejects the empty input: line 266 has read the body to its end, so
  the classifier reads nothing at line 421 and panics. The call \<^verbatim>\<open>doRequest\<close> either
  stops before it sends the request, or sends this one request and ends in the panic
  \<^verbatim>\<open>Couldn't understand response\<close>; the cached token is not cleared, and no login and
  no second request follow.
\<close>

theorem doRequest_wire_401:
  assumes rej: "isl (Unmarshal_ErrResponse21 env [])"
    and rep: "replies w (length (sent w)) = Reply resp" "StatusCode resp = 401"
      "Body resp = wire_body b"
    and run: "doRequest (Suc n) env method endpoint body qparams sensitive retry r w = (out, r', w')"
  shows "APIToken r' = APIToken r
    \<and> (sent w' = sent w
        \<or> (\<exists>req. sent w' = sent w @ [req] \<and> out = Abort CouldntUnderstandResponse))"
proof -
  obtain att r1 w1 where
    att: "doRequest_attempt env method endpoint body qparams sensitive r w = (att, r1, w1)"
    by (metis prod_cases3)
  note a = attempt_wire_401 [OF rej rep att]
  have "doRequest (Suc n) env method endpoint body qparams sensitive retry r w =
    ((case att of Stopped a \<Rightarrow> Abort a | Returned res \<Rightarrow> Return res | Classified rb e \<Rightarrow> Abort OutOfFuel),
     r1, w1)"
    using a by (simp add: doRequest_step_unclassified [OF att])
  then show ?thesis
    using run a by auto
qed

text \<open>
  C1. When the first attempt of a call is classified as retry and \<^verbatim>\<open>doRequest\<close>
  returns, it returns the body of the first attempt and the retry signal itself:
  line 290 drops what the second attempt returns, and line 293 returns \<^verbatim>\<open>rbody\<close> and
  \<^verbatim>\<open>err\<close> of the first.
\<close>

theorem doRequest_returns_first_attempt:
  assumes "doRequest_attempt env method endpoint body qparams sensitive r w
             = (Classified rbody (Some Retry), r1, w1)"
    and "doRequest (Suc n) env method endpoint body qparams sensitive False r w
             = (Return res, r', w')"
  shows "res = (rbody, Some Retry)"
  using assms
  by (auto simp: doRequest_step_def split: prod.splits outcome.splits if_splits)


lemma prepConn_url:
  assumes "prepConn env r w = (Return (Inr url), r1, w1)"
  shows "(\<exists>conn. url = with_query conn
            (map QueryEscape (case QParams r of None \<Rightarrow> [] | Some a \<Rightarrow> slices w a)))
    \<and> slices w1 = (case QParams r of None \<Rightarrow> slices w
                   | Some a \<Rightarrow> (slices w)(a := map QueryEscape (slices w a)))"
proof -
  obtain o2 r2 where u: "(if APIToken r \<noteq> USetToken
                   then UpdateHeaders [''Auth-Token='' @ APIToken r] r
                   else (Return None, r)) = (o2, r2)"
    by (metis prod.exhaust)
  have q: "QParams r2 = QParams r"
    using u UpdateHeaders_frame [of "[''Auth-Token='' @ APIToken r]" r o2 r2]
    by (auto split: if_splits)
  show ?thesis
    using assms q unfolding prepConn_def Let_def u
    by (cases "QParams r")
       (auto simp: with_query_def split: outcome.splits sum.splits if_splits)
qed

lemma prepConn_slices:
  assumes "prepConn env r w = (out, r1, w1)" and "QParams r = None"
  shows "slices w1 = slices w"
proof -
  obtain o2 r2 where u: "(if APIToken r \<noteq> USetToken
                   then UpdateHeaders [''Auth-Token='' @ APIToken r] r
                   else (Return None, r)) = (o2, r2)"
    by (metis prod.exhaust)
  have q: "QParams r2 = None"
    using u assms(2) UpdateHeaders_frame [of "[''Auth-Token='' @ APIToken r]" r o2 r2]
    by (auto split: if_splits)
  show ?thesis
    using assms q unfolding prepConn_def Let_def u
    by (auto split: outcome.splits sum.splits if_splits)
qed

lemma attempt_request:
  assumes att: "doRequest_attempt env method endpoint body qparams sensitive r w = (att, r1, w1)"
    and sent: "sent w1 \<noteq> sent w"
  shows "(\<exists>conn req. sent w1 = sent w @ [req] \<and> reqURL req = with_query conn
            (map QueryEscape (case qparams of None \<Rightarrow> [] | Some a \<Rightarrow> slices w a)))
    \<and> slices w1 = (case qparams of None \<Rightarrow> slices w
                   | Some a \<Rightarrow> (slices w)(a := map QueryEscape (slices w a)))"
proof (cases "Mutex r")
  case True
  then show ?thesis using att sent by (auto simp: doRequest_attempt_def)
next
  case unlocked: False
  show ?thesis
  proof (cases "verb (ToLower method)")
    case None
    then show ?thesis using att sent unlocked by (auto simp: doRequest_attempt_def)
  next
    case (Some m)
    obtain po r0 w0 where pc:
      "prepConn env (r\<lparr>Mutex := True, Method := m, Endpoint := Trim endpoint ''/'',
         QParams := qparams\<rparr>) w = (po, r0, w0)"
      by (metis prod_cases3)
    have f: "sent w0 = sent w"
      using prepConn_frame [OF pc] by simp
    show ?thesis
    proof (cases po)
      case (Abort a)
      then show ?thesis
        using att sent unlocked Some f by (auto simp: doRequest_attempt_def Let_def pc)
    next
      case (Return x)
      show ?thesis
      proof (cases x)
        case (Inl err)
        then show ?thesis
          using att sent unlocked Some f Return by (auto simp: doRequest_attempt_def Let_def pc)
      next
        case (Inr url)
        have u: "(\<exists>conn. url = with_query conn
              (map QueryEscape (case qparams of None \<Rightarrow> [] | Some a \<Rightarrow> slices w a)))"
          and sl: "slices w0 = (case qparams of None \<Rightarrow> slices w
                   | Some a \<Rightarrow> (slices w)(a := map QueryEscape (slices w a)))"
          using prepConn_url [OF pc [unfolded Return Inr]] by simp_all
        show ?thesis
          using att sent unlocked Some f Return Inr u sl
          by (auto simp: doRequest_attempt_def Let_def pc NewUUID_def Do_def
              split: outcome.splits sum.splits option.splits if_splits reply.splits
                prod.splits read_result.splits)
      qed
    qed
  qed
qed


lemma attempt_slices_nil:
  assumes att: "doRequest_attempt env method endpoint body None sensitive r w = (att, r1, w1)"
  shows "slices w1 = slices w"
proof (cases "Mutex r")
  case True
  then show ?thesis using att by (auto simp: doRequest_attempt_def)
next
  case unlocked: False
  show ?thesis
  proof (cases "verb (ToLower method)")
    case None
    then show ?thesis using att unlocked by (auto simp: doRequest_attempt_def)
  next
    case (Some m)
    obtain po r0 w0 where pc:
      "prepConn env (r\<lparr>Mutex := True, Method := m, Endpoint := Trim endpoint ''/'',
         QParams := None\<rparr>) w = (po, r0, w0)"
      by (metis prod_cases3)
    have f: "slices w0 = slices w"
      using prepConn_slices [OF pc] by simp
    show ?thesis
      using att unlocked Some f
      by (auto simp: doRequest_attempt_def Let_def pc NewUUID_def Do_def
          split: outcome.splits sum.splits option.splits if_splits reply.splits
            prod.splits read_result.splits)
  qed
qed

lemma attempt_classified:
  assumes att: "doRequest_attempt env method endpoint body qparams sensitive r w
      = (Classified rb e, r1, w1)"
  shows "sent w1 \<noteq> sent w"
proof (cases "Mutex r")
  case True
  then show ?thesis using att by (auto simp: doRequest_attempt_def)
next
  case unlocked: False
  show ?thesis
  proof (cases "verb (ToLower method)")
    case None
    then show ?thesis using att unlocked by (auto simp: doRequest_attempt_def)
  next
    case (Some m)
    obtain po r0 w0 where pc:
      "prepConn env (r\<lparr>Mutex := True, Method := m, Endpoint := Trim endpoint ''/'',
         QParams := qparams\<rparr>) w = (po, r0, w0)"
      by (metis prod_cases3)
    have f: "sent w0 = sent w"
      using prepConn_frame [OF pc] by simp
    show ?thesis
      using att unlocked Some f
      by (auto simp: doRequest_attempt_def Let_def pc NewUUID_def Do_def
          split: outcome.splits sum.splits option.splits if_splits reply.splits
            prod.splits read_result.splits)
  qed
qed

lemma Put_via_slices:
  assumes "\<And>m e b s t r w. slices (snd (snd (d m e b None s t r w))) = slices w"
  shows "slices (snd (snd (Put_via d env endpoint sensitive bodyp r w))) = slices w"
  using assms
  by (auto simp: Put_via_def split: outcome.splits prod.splits option.splits sum.splits)

lemma Login_via_slices:
  assumes "\<And>m e b s t r w. slices (snd (snd (d m e b None s t r w))) = slices w"
  shows "slices (snd (snd (Login_via d env r w))) = slices w"
proof -
  have "slices (snd (snd (Put_via d env ''login'' True
      [AString (''name='' @ Username r), AString (''password='' @ Password r)] r w))) = slices w"
    by (rule Put_via_slices [of d]) (rule assms)
  then show ?thesis
    by (auto simp: Login_via_def Let_def
        split: outcome.splits prod.splits option.splits sum.splits if_splits)
qed

lemma doRequest_step_slices:
  assumes self: "\<And>m e b s t r w. slices (snd (snd (self m e b None s t r w))) = slices w"
  shows "slices (snd (snd (doRequest_step env self mth endpoint body None sensitive retry r w)))
    = slices w"
proof -
  obtain att r1 w1 where
    att: "doRequest_attempt env mth endpoint body None sensitive r w = (att, r1, w1)"
    by (metis prod_cases3)
  have a: "slices w1 = slices w"
    by (rule attempt_slices_nil [OF att])
  show ?thesis
  proof (cases att)
    case (Returned res)
    then show ?thesis using att a by (simp add: doRequest_step_def)
  next
    case (Stopped x)
    then show ?thesis using att a by (simp add: doRequest_step_def)
  next
    case (Classified rb e)
    obtain lo r2 w2 where
      l: "Login_via self env (r1\<lparr>Mutex := False, APIToken := USetToken\<rparr>) w1 = (lo, r2, w2)"
      by (metis prod_cases3)
    have l2: "slices w2 = slices w"
      using Login_via_slices [of self env "r1\<lparr>Mutex := False, APIToken := USetToken\<rparr>" w1]
        self l a by simp
    obtain so r3 w3 where
      s: "self mth endpoint body None sensitive True r2 w2 = (so, r3, w3)"
      by (metis prod_cases3)
    have s2: "slices w3 = slices w"
      using self [of mth endpoint body sensitive True r2 w2] s l2 by simp
    show ?thesis
      using att Classified a l l2 s s2
      by (auto simp: doRequest_step_def split: outcome.splits if_splits)
  qed
qed

lemma doRequest_slices:
  "slices (snd (snd (doRequest n env mth endpoint body None sensitive retry r w))) = slices w"
proof (induction n arbitrary: mth endpoint body sensitive retry r w)
  case 0
  then show ?case by simp
next
  case (Suc n)
  show ?case
    unfolding doRequest.simps
    by (rule doRequest_step_slices [of "doRequest n env"]) (rule Suc.IH)
qed


lemma length_escape_byte: "1 \<le> length (escape_byte c)"
  by (simp add: escape_byte_def)

lemma length_QueryEscape: "length s \<le> length (QueryEscape s)"
proof (induction s)
  case Nil
  then show ?case by (simp add: QueryEscape_def)
next
  case (Cons c s)
  then show ?case
    using length_escape_byte [of c] by (simp add: QueryEscape_def)
qed

lemma QueryEscape_Cons: "QueryEscape (c # s) = escape_byte c @ QueryEscape s"
  by (simp add: QueryEscape_def)

lemma marks_grow:
  "CHR ''+'' \<in> set s \<or> CHR ''%'' \<in> set s \<Longrightarrow> length s < length (QueryEscape s)"
proof (induction s)
  case Nil
  then show ?case by simp
next
  case (Cons c s)
  show ?case
  proof (cases "c = CHR ''+'' \<or> c = CHR ''%''")
    case True
    then have "length (escape_byte c) = 3"
      by (auto simp: escape_byte_def unreserved_def)
    then show ?thesis
      using length_QueryEscape [of s] by (simp add: QueryEscape_Cons)
  next
    case False
    then have "length s < length (QueryEscape s)"
      using Cons by auto
    then show ?thesis
      using length_escape_byte [of c] by (simp add: QueryEscape_Cons)
  qed
qed

lemma escaped_has_mark:
  "\<exists>c \<in> set p. \<not> unreserved c \<Longrightarrow>
   CHR ''+'' \<in> set (QueryEscape p) \<or> CHR ''%'' \<in> set (QueryEscape p)"
proof (induction p)
  case Nil
  then show ?case by simp
next
  case (Cons c p)
  show ?case
  proof (cases "unreserved c")
    case True
    then show ?thesis using Cons by (auto simp: QueryEscape_Cons)
  next
    case False
    then show ?thesis by (auto simp: QueryEscape_Cons escape_byte_def)
  qed
qed

lemma escaped_twice_differs:
  assumes "\<exists>c \<in> set p. \<not> unreserved c"
  shows "QueryEscape (QueryEscape p) \<noteq> QueryEscape p \<and> QueryEscape (QueryEscape p) \<noteq> p"
proof -
  have "length (QueryEscape p) < length (QueryEscape (QueryEscape p))"
    by (rule marks_grow [OF escaped_has_mark [OF assms]])
  then show ?thesis
    using length_QueryEscape [of p] by auto
qed

lemma attempt_locked:
  assumes att: "doRequest_attempt env method endpoint body qparams sensitive r w
      = (Classified rb e, r1, w1)"
  shows "Mutex r1"
proof (cases "Mutex r")
  case True
  then show ?thesis using att by (auto simp: doRequest_attempt_def)
next
  case unlocked: False
  show ?thesis
  proof (cases "verb (ToLower method)")
    case None
    then show ?thesis using att unlocked by (auto simp: doRequest_attempt_def)
  next
    case (Some m)
    obtain po r0 w0 where pc:
      "prepConn env (r\<lparr>Mutex := True, Method := m, Endpoint := Trim endpoint ''/'',
         QParams := qparams\<rparr>) w = (po, r0, w0)"
      by (metis prod_cases3)
    have f: "Mutex r0"
      using prepConn_frame [OF pc] by simp
    show ?thesis
      using att unlocked Some f
      by (auto simp: doRequest_attempt_def Let_def pc NewUUID_def Do_def
          split: outcome.splits sum.splits option.splits if_splits reply.splits
            prod.splits read_result.splits)
  qed
qed

lemma doRequest_step_world:
  assumes "doRequest_attempt env method endpoint body qparams sensitive r w = (att, r1, w1)"
  shows "snd (snd (doRequest_step env self method endpoint body qparams sensitive True r w)) = w1"
  using assms by (cases att) (auto simp: doRequest_step_def)

text \<open>
  C10. Let the first attempt of a call with the query parameters in the slice at \<open>a\<close>
  be classified as retry, let the login that follows return, and let the second attempt
  send its request. Then the world the call ends in is the one the second attempt
  leaves; the URL of the request sent last carries every query parameter escaped
  twice, and so does the caller's slice; and a parameter with a byte that escaping
  changes differs, escaped twice, from the parameter escaped once and from the
  parameter itself.
\<close>

theorem retried_request_escaped_twice:
  assumes first: "doRequest_attempt env method endpoint body (Some a) sensitive r w
      = (Classified rbody (Some Retry), r1, w1)"
    and login: "Login_via (doRequest (Suc n) env) env (r1\<lparr>Mutex := False, APIToken := USetToken\<rparr>) w1
      = (Return lerr, r2, w2)"
    and second: "doRequest_attempt env method endpoint body (Some a) sensitive r2 w2 = (att, r3, w3)"
    and issued: "sent w3 \<noteq> sent w2"
  shows "snd (snd (doRequest (Suc (Suc n)) env method endpoint body (Some a) sensitive False r w)) = w3
    \<and> (\<exists>conn. reqURL (last (sent w3))
          = with_query conn (map (\<lambda>p. QueryEscape (QueryEscape p)) (slices w a)))
    \<and> slices w3 a = map (\<lambda>p. QueryEscape (QueryEscape p)) (slices w a)
    \<and> (\<forall>p \<in> set (slices w a). (\<exists>c \<in> set p. \<not> unreserved c) \<longrightarrow>
          QueryEscape (QueryEscape p) \<noteq> QueryEscape p \<and> QueryEscape (QueryEscape p) \<noteq> p)"
proof (intro conjI)
  have locked: "Mutex r1"
    by (rule attempt_locked [OF first])
  obtain so r4 w4 where
    self: "doRequest (Suc n) env method endpoint body (Some a) sensitive True r2 w2 = (so, r4, w4)"
    by (metis prod_cases3)
  have "w4 = w3"
    using doRequest_step_world [OF second, of "doRequest n env"] self by simp
  then show "snd (snd (doRequest (Suc (Suc n)) env method endpoint body (Some a) sensitive False r w)) = w3"
    using first login self locked
    by (cases so) (auto simp: doRequest_step_def)
next
  have s1: "slices w1 = (slices w)(a := map QueryEscape (slices w a))"
    using attempt_request [OF first attempt_classified [OF first]] by simp
  have "slices (snd (snd (Login_via (doRequest (Suc n) env) env
      (r1\<lparr>Mutex := False, APIToken := USetToken\<rparr>) w1))) = slices w1"
    by (rule Login_via_slices [of "doRequest (Suc n) env"]) (rule doRequest_slices)
  then have s2: "slices w2 = (slices w)(a := map QueryEscape (slices w a))"
    using login s1 by simp
  note r = attempt_request [OF second issued]
  show "\<exists>conn. reqURL (last (sent w3))
          = with_query conn (map (\<lambda>p. QueryEscape (QueryEscape p)) (slices w a))"
    using r s2 by (auto simp: comp_def)
  show "slices w3 a = map (\<lambda>p. QueryEscape (QueryEscape p)) (slices w a)"
    using r s2 by (auto simp: comp_def)
next
  show "\<forall>p \<in> set (slices w a). (\<exists>c \<in> set p. \<not> unreserved c) \<longrightarrow>
          QueryEscape (QueryEscape p) \<noteq> QueryEscape p \<and> QueryEscape (QueryEscape p) \<noteq> p"
    using escaped_twice_differs by blast
qed

section \<open>The bound on nested calls\<close>

text \<open>
  On the worlds whose responses all come from the network, and with a \<^verbatim>\<open>json.Unmarshal\<close>
  that rejects the empty input, no attempt is classified as retry: the calls of lines
  289 and 290 are never made, one unit of fuel is as good as any number, and
  \<^verbatim>\<open>doRequest\<close> never ends in the bound of the model.
\<close>

lemma handleBadResponse_drained_not_retry:
  assumes "isl (Unmarshal_ErrResponse21 env [])"
  shows "handleBadResponse env (resp\<lparr>Body := []\<rparr>) \<noteq> Return (Some Retry)"
  using assms by (auto simp: handleBadResponse_def Let_def isl_def)

lemma prepConn_no_fuel: "fst (prepConn env r w) \<noteq> Abort OutOfFuel"
proof -
  have "fst (UpdateHeaders [''Auth-Token='' @ APIToken r] r) \<noteq> Abort OutOfFuel"
    unfolding UpdateHeaders_outcome by simp
  then show ?thesis
    unfolding prepConn_def Let_def parseTemplate_map
    by (auto split: sum.splits prod.splits outcome.splits if_splits)
qed

lemma attempt_wire:
  assumes rej: "isl (Unmarshal_ErrResponse21 env [])"
    and wire: "wire_replies w"
    and att: "doRequest_attempt env mth endpoint body qparams sensitive r w = (att, r1, w1)"
  shows "att \<noteq> Classified rb (Some Retry) \<and> att \<noteq> Stopped OutOfFuel"
proof (cases "Mutex r")
  case True
  then show ?thesis using att by (auto simp: doRequest_attempt_def)
next
  case unlocked: False
  show ?thesis
  proof (cases "verb (ToLower mth)")
    case None
    then show ?thesis using att unlocked by (auto simp: doRequest_attempt_def)
  next
    case (Some m)
    obtain po r0 w0 where pc:
      "prepConn env (r\<lparr>Mutex := True, Method := m, Endpoint := Trim endpoint ''/'',
         QParams := qparams\<rparr>) w = (po, r0, w0)"
      by (metis prod_cases3)
    have f: "replies w0 = replies w"
      using prepConn_frame [OF pc] by simp
    have nf: "po \<noteq> Abort OutOfFuel"
      using prepConn_no_fuel [of env "r\<lparr>Mutex := True, Method := m,
        Endpoint := Trim endpoint ''/'', QParams := qparams\<rparr>" w] pc by simp
    have hb: "\<And>resp. handleBadResponse env (resp\<lparr>Body := []\<rparr>) \<noteq> Return (Some Retry)"
      by (rule handleBadResponse_drained_not_retry [OF rej])
    have hf: "\<And>resp. handleBadResponse env resp \<noteq> Abort OutOfFuel"
      by (auto simp: handleBadResponse_def Let_def split: read_result.splits sum.splits)
    have wb: "\<And>resp. replies w (length (sent w0)) = Reply resp \<Longrightarrow> \<exists>b. Body resp = [ReadOk b]"
      using wire unfolding wire_replies_def wire_body_def by blast
    show ?thesis
      using att unlocked Some f nf hb hf wb
      by (auto simp: doRequest_attempt_def Let_def pc NewUUID_def Do_def
          split: outcome.splits sum.splits option.splits if_splits reply.splits
            prod.splits read_result.splits)
  qed
qed

lemma doRequest_wire_fuel:
  assumes rej: "isl (Unmarshal_ErrResponse21 env [])"
    and wire: "wire_replies w"
  shows "doRequest (Suc n) env mth endpoint body qparams sensitive retry r w
      = doRequest (Suc 0) env mth endpoint body qparams sensitive retry r w
    \<and> fst (doRequest (Suc n) env mth endpoint body qparams sensitive retry r w) \<noteq> Abort OutOfFuel"
proof -
  obtain att r1 w1 where
    att: "doRequest_attempt env mth endpoint body qparams sensitive r w = (att, r1, w1)"
    by (metis prod_cases3)
  have a: "\<And>rb. att \<noteq> Classified rb (Some Retry)" and b: "att \<noteq> Stopped OutOfFuel"
    using attempt_wire [OF rej wire att] by simp_all
  show ?thesis
    using att a b
    by (cases att) (auto simp: doRequest_step_def)
qed


text \<open>
  Where the classifier can read the body, the nesting has no bound: on the world that
  answers every exchange with the retry signal, the login of line 289 is itself a call
  with \<^verbatim>\<open>retry\<close> false, whose login is one again, and the call runs out of every
  number of units of fuel.
\<close>

lemma stubborn_attempt:
  assumes "\<not> Mutex r" and "verb (ToLower mth) = Some m"
    and "replies w = replies stubborn_world" and "uuid_results w = (\<lambda>i. None)"
  shows "\<exists>r1 w1. doRequest_attempt example_env mth endpoint body qparams sensitive r w
        = (Classified denied_body (Some Retry), r1, w1)
      \<and> Mutex r1 \<and> replies w1 = replies stubborn_world \<and> uuid_results w1 = (\<lambda>i. None)"
  using assms
  by (cases qparams)
     (simp_all add: doRequest_attempt_def prepConn_renders [OF example_env_renders]
        example_env_fields NewUUID_def Do_def stubborn_world_def handleBadResponse_def
        httpErrors_def permDeniedError_def err_named_def Let_def)

lemma login_params:
  "parseParams [AString (''name='' @ u), AString (''password='' @ p)] =
     Return (foldl (\<lambda>m s. m(pair_key s \<mapsto> coerce (pair_value s))) Map.empty
               [''name='' @ u, ''password='' @ p], None)"
  using parseParams_map_AString [of "[''name='' @ u, ''password='' @ p]"] by simp

lemma stubborn_nesting:
  assumes "\<not> Mutex r" and "verb (ToLower mth) = Some m"
    and "replies w = replies stubborn_world" and "uuid_results w = (\<lambda>i. None)"
  shows "fst (doRequest n example_env mth endpoint body qparams sensitive False r w)
    = Abort OutOfFuel"
  using assms
proof (induction n arbitrary: mth m endpoint body qparams sensitive r w)
  case 0
  then show ?case by simp
next
  case (Suc n)
  obtain r1 w1 where
    att: "doRequest_attempt example_env mth endpoint body qparams sensitive r w
        = (Classified denied_body (Some Retry), r1, w1)"
    and locked: "Mutex r1"
    and w1: "replies w1 = replies stubborn_world" "uuid_results w1 = (\<lambda>i. None)"
    using stubborn_attempt [OF Suc.prems] by blast
  have put: "verb (ToLower ''put'') = Some ''PUT''"
    by (simp add: verb_def ToLower_def lower_byte_def)
  have "fst (doRequest n example_env ''put'' ''login'' (Some ''{}'') None True False
      (r1\<lparr>Mutex := False, APIToken := USetToken\<rparr>) w1) = Abort OutOfFuel"
    by (rule Suc.IH [OF _ put w1]) simp
  then have "fst (Login_via (doRequest n example_env) example_env
      (r1\<lparr>Mutex := False, APIToken := USetToken\<rparr>) w1) = Abort OutOfFuel"
    unfolding Login_via_def Put_via_def Let_def login_params
    by (auto simp: example_env_fields USetToken_def split: prod.splits)
  then show ?case
    using att locked
    by (auto simp: doRequest_step_def split: prod.splits outcome.splits)
qed

lemma Get_stubborn:
  "fst (Get n example_env ''/volumes'' None example_conn stubborn_world) = Abort OutOfFuel"
  unfolding Get_def
  by (rule stubborn_nesting [of _ _ "''GET''"])
     (simp_all add: example_conn_def stubborn_world_def verb_def ToLower_def lower_byte_def)

section \<open>The pipeline on the example worlds\<close>

theorem doRequest_wire_401_witness:
  "isl (Unmarshal_ErrResponse21 example_env [])
   \<and> replies denied_world (length (sent denied_world))
       = Reply \<lparr>StatusCode = 401, Status = ''401 Unauthorized'', Body = wire_body denied_body\<rparr>
   \<and> fst (doRequest (Suc 0) example_env ''get'' ''/volumes'' None (Some 0) False False
            example_conn denied_world) = Abort CouldntUnderstandResponse
   \<and> APIToken (fst (snd (doRequest (Suc 0) example_env ''get'' ''/volumes'' None (Some 0) False False
            example_conn denied_world))) = APIToken example_conn
   \<and> length (sent (snd (snd (doRequest (Suc 0) example_env ''get'' ''/volumes'' None (Some 0)
            False False example_conn denied_world)))) = 1"
proof -
  let ?X = "doRequest (Suc 0) example_env ''get'' ''/volumes'' None (Some 0) False False
            example_conn denied_world"
  have rej: "isl (Unmarshal_ErrResponse21 example_env [])"
    by (simp add: example_env_fields denied_body_def failed_body_def)
  have rep: "replies denied_world (length (sent denied_world))
       = Reply \<lparr>StatusCode = 401, Status = ''401 Unauthorized'', Body = wire_body denied_body\<rparr>"
    by (simp add: denied_world_def example_world_def)
  have none: "sent denied_world = []"
    by (simp add: denied_world_def example_world_def)
  have one: "length (sent (snd (snd ?X))) = 1"
    by (simp add: run_defs)
  have run: "?X = (fst ?X, fst (snd ?X), snd (snd ?X))"
    by simp
  note t = doRequest_wire_401 [OF rej rep _ _ run, of denied_body]
  have tok: "APIToken (fst (snd ?X)) = APIToken example_conn"
    and out: "sent (snd (snd ?X)) = sent denied_world
        \<or> (\<exists>req. sent (snd (snd ?X)) = sent denied_world @ [req]
              \<and> fst ?X = Abort CouldntUnderstandResponse)"
    using t by simp_all
  have "fst ?X = Abort CouldntUnderstandResponse"
    using out one none by auto
  then show ?thesis
    using rej rep tok one by (intro conjI)
qed


theorem doRequest_returns_first_attempt_witness:
  "fst (doRequest_attempt example_env ''get'' ''/volumes'' None (Some 0) False
          example_conn retry_world) = Classified denied_body (Some Retry)
   \<and> fst (doRequest (Suc (Suc 0)) example_env ''get'' ''/volumes'' None (Some 0) False False
          example_conn retry_world) = Return (denied_body, Some Retry)"
proof -
  let ?A = "doRequest_attempt example_env ''get'' ''/volumes'' None (Some 0) False
          example_conn retry_world"
  let ?Y = "doRequest (Suc (Suc 0)) example_env ''get'' ''/volumes'' None (Some 0) False False
          example_conn retry_world"
  have a: "fst ?A = Classified denied_body (Some Retry)"
    by (simp add: run_defs)
  have y: "case fst ?Y of Return res \<Rightarrow> True | Abort x \<Rightarrow> False"
    by (simp add: run_defs)
  then obtain res where r: "fst ?Y = Return res"
    by (cases "fst ?Y") auto
  have first: "?A = (Classified denied_body (Some Retry), fst (snd ?A), snd (snd ?A))"
    by (rule prod_eqI) (simp_all only: fst_conv snd_conv a prod.collapse)
  have run: "?Y = (Return res, fst (snd ?Y), snd (snd ?Y))"
    by (rule prod_eqI) (simp_all only: fst_conv snd_conv r prod.collapse)
  have "res = (denied_body, Some Retry)"
    by (rule doRequest_returns_first_attempt [OF first run])
  then show ?thesis
    using a r by simp
qed

theorem retried_request_escaped_twice_witness:
  "fst (doRequest_attempt example_env ''get'' ''/volumes'' None (Some 0) False
          example_conn retried_world) = Classified denied_body (Some Retry)
   \<and> slices retried_world 0 = [''a b'']
   \<and> (\<exists>c \<in> set ''a b''. \<not> unreserved c)
   \<and> slices (snd (snd (doRequest (Suc (Suc 0)) example_env ''get'' ''/volumes'' None (Some 0)
          False False example_conn retried_world))) 0 = [''a%2Bb'']
   \<and> map reqURL (sent (snd (snd (doRequest (Suc (Suc 0)) example_env ''get'' ''/volumes'' None
          (Some 0) False False example_conn retried_world))))
      = [''https://cluster:7717/v2.1/volumes?a+b'',
         ''https://cluster:7717/v2.1/login'',
         ''https://cluster:7717/v2.1/volumes?a%2Bb'']"
proof -
  let ?A = "doRequest_attempt example_env ''get'' ''/volumes'' None (Some 0) False
          example_conn retried_world"
  let ?L = "Login_via (doRequest (Suc 0) example_env) example_env
          ((fst (snd ?A))\<lparr>Mutex := False, APIToken := USetToken\<rparr>) (snd (snd ?A))"
  let ?B = "doRequest_attempt example_env ''get'' ''/volumes'' None (Some 0) False
          (fst (snd ?L)) (snd (snd ?L))"
  let ?Z = "doRequest (Suc (Suc 0)) example_env ''get'' ''/volumes'' None (Some 0)
          False False example_conn retried_world"
  have a: "fst ?A = Classified denied_body (Some Retry)"
    by (simp add: run_defs)
  have l: "fst ?L = Return None"
    by (simp add: run_defs)
  have urls: "map reqURL (sent (snd (snd ?B)))
      = [''https://cluster:7717/v2.1/volumes?a+b'',
         ''https://cluster:7717/v2.1/login'',
         ''https://cluster:7717/v2.1/volumes?a%2Bb'']"
    by (simp add: run_defs)
  have before: "length (sent (snd (snd ?L))) = 2"
    by (simp add: run_defs)
  have qs: "slices retried_world 0 = [''a b'']"
    by (simp add: retried_world_def example_world_def)
  have ch: "\<exists>c \<in> set ''a b''. \<not> unreserved c"
    by (simp add: unreserved_def)
  have first: "?A = (Classified denied_body (Some Retry), fst (snd ?A), snd (snd ?A))"
    by (rule prod_eqI) (simp_all only: fst_conv snd_conv a prod.collapse)
  have login: "?L = (Return None, fst (snd ?L), snd (snd ?L))"
    by (rule prod_eqI) (simp_all only: fst_conv snd_conv l prod.collapse)
  have second: "?B = (fst ?B, fst (snd ?B), snd (snd ?B))"
    by simp
  have issued: "sent (snd (snd ?B)) \<noteq> sent (snd (snd ?L))"
  proof
    assume "sent (snd (snd ?B)) = sent (snd (snd ?L))"
    then have "length (map reqURL (sent (snd (snd ?B)))) = length (sent (snd (snd ?L)))"
      by simp
    then show False
      unfolding urls before by simp
  qed
  note t = retried_request_escaped_twice [OF first login second issued]
  have w: "snd (snd ?Z) = snd (snd ?B)"
    and sl: "slices (snd (snd ?B)) 0
        = map (\<lambda>p. QueryEscape (QueryEscape p)) (slices retried_world 0)"
    using t by simp_all
  have "slices (snd (snd ?Z)) 0 = [''a%2Bb'']"
    unfolding w sl qs by (simp add: QueryEscape_def escape_byte_def unreserved_def upperhex_def)
  then show ?thesis
    using a qs ch urls unfolding w by (intro conjI)
qed

end
